theory Spec2Isabelle
  imports Complex_Main
begin

section \<open>Strings of the converter\<close>

text \<open>
  A JavaScript string is a sequence of UTF-16 code units. A code unit is modelled as a
  natural number and a string as a list of them; \<open>lit\<close> turns a literal of the source
  (all of them are ASCII) into such a list.
\<close>

type_synonym jsstring = "nat list"

definition lit :: "string \<Rightarrow> jsstring" where
  "lit s = map of_char s"

text \<open>
  \<open>\s\<close> of a regular expression and \<open>String.prototype.trim\<close> use the same set: the
  white space and the line terminators of ECMAScript.
\<close>

definition isSpace :: "nat \<Rightarrow> bool" where
  "isSpace c \<longleftrightarrow>
     c = 9 \<or> c = 10 \<or> c = 11 \<or> c = 12 \<or> c = 13 \<or> c = 32 \<or> c = 160 \<or> c = 5760
     \<or> (8192 \<le> c \<and> c \<le> 8202) \<or> c = 8232 \<or> c = 8233 \<or> c = 8239 \<or> c = 8287
     \<or> c = 12288 \<or> c = 65279"

definition isDigit :: "nat \<Rightarrow> bool" where
  "isDigit c \<longleftrightarrow> 48 \<le> c \<and> c \<le> 57"

definition isUpper :: "nat \<Rightarrow> bool" where
  "isUpper c \<longleftrightarrow> 65 \<le> c \<and> c \<le> 90"

definition isLower :: "nat \<Rightarrow> bool" where
  "isLower c \<longleftrightarrow> 97 \<le> c \<and> c \<le> 122"

text \<open>\<open>\w\<close> is \<open>[A-Za-z0-9_]\<close>.\<close>

definition isWord :: "nat \<Rightarrow> bool" where
  "isWord c \<longleftrightarrow> isDigit c \<or> isUpper c \<or> isLower c \<or> c = 95"

text \<open>
  A regular expression with the flag \<open>i\<close> (and without the flag \<open>u\<close>) compares two code
  units after \<open>Canonicalize\<close>: the upper-case mapping, except that a code unit from 128 on is
  never mapped below 128. Every letter in the patterns of this program is ASCII, so a pattern
  letter matches exactly its two ASCII cases; \<open>canon\<close> is the mapping on ASCII and leaves
  the other code units, which no pattern letter can match, where they are.
\<close>

definition canon :: "nat \<Rightarrow> nat" where
  "canon c = (if isLower c then c - 32 else c)"

fun startsWith :: "jsstring \<Rightarrow> jsstring \<Rightarrow> jsstring option" where
  "startsWith [] s = Some s"
| "startsWith (p # ps) [] = None"
| "startsWith (p # ps) (c # cs) = (if p = c then startsWith ps cs else None)"

fun startsWithCI :: "jsstring \<Rightarrow> jsstring \<Rightarrow> jsstring option" where
  "startsWithCI [] s = Some s"
| "startsWithCI (p # ps) [] = None"
| "startsWithCI (p # ps) (c # cs) = (if canon p = canon c then startsWithCI ps cs else None)"

text \<open>
  \<open>String.prototype.toLowerCase\<close> on ASCII, and on the only two code units outside ASCII
  whose lower-case form contains an ASCII code unit: the Kelvin sign U+212A (to \<open>k\<close>) and
  U+0130 (to \<open>i\<close> followed by U+0307). Every other code unit lower-cases to code units
  outside ASCII; the program only compares lower-cased text with ASCII literals, and emits it
  only where it is ASCII, so those are left as they are.
\<close>

definition lowerUnit :: "nat \<Rightarrow> jsstring" where
  "lowerUnit c = (if isUpper c then [c + 32]
                  else if c = 8490 then [107]
                  else if c = 304 then [105, 775]
                  else [c])"

definition toLowerCase :: "jsstring \<Rightarrow> jsstring" where
  "toLowerCase s = concat (map lowerUnit s)"

definition trim :: "jsstring \<Rightarrow> jsstring" where
  "trim s = rev (dropWhile isSpace (rev (dropWhile isSpace s)))"

section \<open>Scanning\<close>

text \<open>
  \<open>breakAt P s\<close> cuts \<open>s\<close> at its first code unit in the class \<open>P\<close>: what a greedy run of
  code units outside \<open>P\<close> followed by one of \<open>P\<close> matches, and what follows. There is no
  match when \<open>s\<close> has no such code unit. \<open>splitAt c\<close> is the case of the class of \<open>c\<close> alone.
\<close>

fun breakAt :: "(nat \<Rightarrow> bool) \<Rightarrow> jsstring \<Rightarrow> (jsstring \<times> jsstring) option" where
  "breakAt P [] = None"
| "breakAt P (d # ds) =
     (if P d then Some ([], ds)
      else (case breakAt P ds of None \<Rightarrow> None | Some (b, a) \<Rightarrow> Some (d # b, a)))"

definition splitAt :: "nat \<Rightarrow> jsstring \<Rightarrow> (jsstring \<times> jsstring) option" where
  "splitAt c s = breakAt (\<lambda>d. d = c) s"

text \<open>
  \<open>findCI p s\<close> cuts \<open>s\<close> at the first occurrence of the pattern text \<open>p\<close>, compared as the
  flag \<open>i\<close> does: what a lazy \<open>[\s\S]*?\<close> followed by \<open>p\<close> matches, and what follows.
\<close>

fun findCI :: "jsstring \<Rightarrow> jsstring \<Rightarrow> (jsstring \<times> jsstring) option" where
  "findCI p [] = (case startsWithCI p [] of Some r \<Rightarrow> Some ([], r) | None \<Rightarrow> None)"
| "findCI p (c # cs) =
     (case startsWithCI p (c # cs) of
        Some r \<Rightarrow> Some ([], r)
      | None \<Rightarrow> (case findCI p cs of None \<Rightarrow> None | Some (b, a) \<Rightarrow> Some (c # b, a)))"

section \<open>HTML helpers: \<open>stripTags\<close>\<close>

text \<open>
  \<open>html.replace(/<[^>]*>/g, '')\<close>: at a \<open><\<close> the match runs to the next \<open>>\<close>; when there
  is none the match fails there and the scan goes on with the next code unit.
\<close>

lemma breakAt_length: "breakAt P s = Some (b, a) \<Longrightarrow> length a < length s"
  by (induction s arbitrary: b) (auto split: if_splits option.splits)

lemma splitAt_length: "splitAt c s = Some (b, a) \<Longrightarrow> length a < length s"
  unfolding splitAt_def by (rule breakAt_length)

function removeTags :: "jsstring \<Rightarrow> jsstring" where
  "removeTags [] = []"
| "removeTags (c # cs) =
     (if c = 60 then
        (case splitAt 62 cs of
           None \<Rightarrow> c # removeTags cs
         | Some (tag, rest) \<Rightarrow> removeTags rest)
      else c # removeTags cs)"
  by pat_completeness auto
termination
  by (relation "measure length") (auto dest: splitAt_length)

text \<open>
  \<open>s.replace(/p/g, r)\<close> for a pattern \<open>p\<close> that is plain text: every occurrence, from the
  left, without overlap; the replacement is not scanned again. A match of a pattern that is
  not empty, as all the patterns of the program are, consumes input (\<open>replaceAll_consumes\<close>
  below); the test on the lengths only makes the definition total for the empty pattern.
\<close>

fun replaceAll :: "jsstring \<Rightarrow> jsstring \<Rightarrow> jsstring \<Rightarrow> jsstring" where
  "replaceAll p r [] = []"
| "replaceAll p r (c # cs) =
     (case startsWith p (c # cs) of
        Some rest \<Rightarrow> (if length rest < length (c # cs) then r @ replaceAll p r rest
                       else c # replaceAll p r cs)
      | None \<Rightarrow> c # replaceAll p r cs)"

definition stripTags :: "jsstring \<Rightarrow> jsstring" where
  "stripTags html =
     trim (replaceAll (lit ''&#39;'') [39]
          (replaceAll (lit ''&quot;'') [34]
          (replaceAll (lit ''&gt;'') [62]
          (replaceAll (lit ''&lt;'') [60]
          (replaceAll (lit ''&amp;'') [38]
          (replaceAll (lit ''&nbsp;'') [32]
          (removeTags html)))))))"

section \<open>Numbers\<close>

text \<open>
  A JavaScript number is an IEEE 754 double. The numbers of this program come from runs of
  digits and are never negative, so a number is a rational that a double can hold, positive
  infinity, or NaN. \<open>toDouble\<close> rounds a rational that is not negative to the nearest
  double, ties to even: 53 bits of mantissa, exponents down to the subnormal range, overflow
  to infinity.
\<close>

datatype jsnum = Num rat | Infinity | NaN

function nbits :: "nat \<Rightarrow> nat" where
  "nbits n = (if n = 0 then 0 else Suc (nbits (n div 2)))"
  by pat_completeness auto
termination
  by (relation "measure id") auto

declare nbits.simps [simp del]

text \<open>The integer part of the binary logarithm of a positive rational.\<close>

definition ilog2 :: "rat \<Rightarrow> int" where
  "ilog2 q = (if 1 \<le> q then int (nbits (nat \<lfloor>q\<rfloor>)) - 1
              else - int (nbits (nat (\<lceil>1 / q\<rceil> - 1))))"

definition roundHalfEven :: "rat \<Rightarrow> int" where
  "roundHalfEven q =
     (let f = \<lfloor>q\<rfloor>; d = q - of_int f
      in if d < 1 / 2 then f else if 1 / 2 < d then f + 1 else if even f then f else f + 1)"

definition scale2 :: "rat \<Rightarrow> int \<Rightarrow> rat" where
  "scale2 q e = (if 0 \<le> e then q * 2 ^ nat e else q / 2 ^ nat (- e))"

text \<open>\<open>roundAt q e\<close> rounds \<open>q\<close> to a multiple of \<open>2 ^ e\<close>, the unit in the last place.\<close>

definition roundAt :: "rat \<Rightarrow> int \<Rightarrow> jsnum" where
  "roundAt q e =
     (let v = scale2 (of_int (roundHalfEven (scale2 q (- e)))) e
      in if 2 ^ 1024 \<le> v then Infinity else Num v)"

definition toDouble :: "rat \<Rightarrow> jsnum" where
  "toDouble q = (if q \<le> 0 then Num 0 else roundAt q (max (ilog2 q - 52) (- 1074)))"

text \<open>The product of two numbers that are not negative.\<close>

fun jsMul :: "jsnum \<Rightarrow> jsnum \<Rightarrow> jsnum" where
  "jsMul (Num a) (Num b) = toDouble (a * b)"
| "jsMul NaN y = NaN"
| "jsMul x NaN = NaN"
| "jsMul Infinity (Num b) = (if b = 0 then NaN else Infinity)"
| "jsMul (Num a) Infinity = (if a = 0 then NaN else Infinity)"
| "jsMul Infinity Infinity = Infinity"

text \<open>\<open>Math.round\<close>: the nearest integer, a tie goes up.\<close>

fun Math_round :: "jsnum \<Rightarrow> jsnum" where
  "Math_round (Num q) = Num (of_int \<lfloor>q + 1 / 2\<rfloor>)"
| "Math_round Infinity = Infinity"
| "Math_round NaN = NaN"

text \<open>The truth value of a number in a condition: \<open>0\<close> and NaN are false.\<close>

fun truthyNum :: "jsnum \<Rightarrow> bool" where
  "truthyNum (Num q) = (q \<noteq> 0)"
| "truthyNum Infinity = True"
| "truthyNum NaN = False"

fun digitsValue :: "jsstring \<Rightarrow> nat \<Rightarrow> nat" where
  "digitsValue [] acc = acc"
| "digitsValue (c # cs) acc = digitsValue cs (10 * acc + (c - 48))"

text \<open>
  \<open>parseFloat\<close> reads the longest prefix that is a decimal literal and gives NaN when there is
  none. It is only called on the group \<open>[\d.]+\<close> of a match, a run of digits and dots: the
  prefix is the digits before the first dot, and the digits that follow that dot; there is no
  sign and no exponent to read. The value is rounded to a double.
\<close>

definition fracDigits :: "jsstring \<Rightarrow> jsstring" where
  "fracDigits s =
     (case dropWhile isDigit s of
        [] \<Rightarrow> []
      | c # r \<Rightarrow> if c = 46 then takeWhile isDigit r else [])"

definition decimalValue :: "jsstring \<Rightarrow> jsstring \<Rightarrow> rat" where
  "decimalValue ip fp = of_nat (digitsValue (ip @ fp) 0) / 10 ^ length fp"

definition parseFloat :: "jsstring \<Rightarrow> jsnum" where
  "parseFloat s =
     (if takeWhile isDigit s = [] \<and> fracDigits s = [] then NaN
      else toDouble (decimalValue (takeWhile isDigit s) (fracDigits s)))"

text \<open>\<open>parseInt\<close> is only called on a group \<open>\d+\<close>.\<close>

definition parseInt :: "jsstring \<Rightarrow> jsnum" where
  "parseInt s = (if takeWhile isDigit s = [] then NaN
                 else toDouble (of_nat (digitsValue (takeWhile isDigit s) 0)))"

text \<open>
  \<open>Number.prototype.toString(16)\<close>, only called on what \<open>parseInt\<close> gives for a run of digits:
  an integer, written with its hexadecimal digits in lower case, or infinity.
\<close>

definition hexDigit :: "nat \<Rightarrow> nat" where
  "hexDigit d = (if d < 10 then 48 + d else 87 + d)"

function hexDigits :: "nat \<Rightarrow> jsstring" where
  "hexDigits n = (if n < 16 then [hexDigit n] else hexDigits (n div 16) @ [hexDigit (n mod 16)])"
  by pat_completeness auto
termination
  by (relation "measure id") auto

declare hexDigits.simps [simp del]

fun toString16 :: "jsnum \<Rightarrow> jsstring" where
  "toString16 (Num q) = hexDigits (nat \<lfloor>q\<rfloor>)"
| "toString16 Infinity = lit ''Infinity''"
| "toString16 NaN = lit ''NaN''"

text \<open>\<open>padStart(2, '0')\<close>.\<close>

definition padStart2 :: "jsstring \<Rightarrow> jsstring" where
  "padStart2 s = replicate (2 - length s) 48 @ s"

section \<open>CSS helpers\<close>

text \<open>
  \<open>/^([\d.]+)pt$/i\<close> and \<open>/^([\d.]+)px$/i\<close>: the group takes every digit and dot at the
  start (the unit has none, so the greedy match never gives one back), and the unit must be
  all that is left.
\<close>

definition isDigitOrDot :: "nat \<Rightarrow> bool" where
  "isDigitOrDot c \<longleftrightarrow> isDigit c \<or> c = 46"

definition matchSize :: "jsstring \<Rightarrow> jsstring \<Rightarrow> jsstring option" where
  "matchSize unit val =
     (if takeWhile isDigitOrDot val \<noteq> []
         \<and> startsWithCI unit (dropWhile isDigitOrDot val) = Some []
      then Some (takeWhile isDigitOrDot val) else None)"

text \<open>The number \<open>1.333\<close> of the source is the double nearest to it.\<close>

definition c1333 :: jsnum where
  "c1333 = toDouble (1333 / 1000)"

definition parsePtPx :: "jsstring \<Rightarrow> jsnum option" where
  "parsePtPx val =
     (case matchSize (lit ''pt'') val of
        Some g \<Rightarrow> Some (Math_round (jsMul (parseFloat g) c1333))
      | None \<Rightarrow>
          (case matchSize (lit ''px'') val of
             Some g \<Rightarrow> Some (Math_round (parseFloat g))
           | None \<Rightarrow> None))"

definition isHex :: "nat \<Rightarrow> bool" where
  "isHex c \<longleftrightarrow> isDigit c \<or> (97 \<le> c \<and> c \<le> 102) \<or> (65 \<le> c \<and> c \<le> 70)"

text \<open>\<open>/^#[0-9a-f]{3,6}$/i\<close>.\<close>

definition isHexColor :: "jsstring \<Rightarrow> bool" where
  "isHexColor v =
     (case v of
        [] \<Rightarrow> False
      | c # hs \<Rightarrow> c = 35 \<and> 3 \<le> length hs \<and> length hs \<le> 6 \<and> list_all isHex hs)"

text \<open>
  \<open>/^rgb\((\d+),\s*(\d+),\s*(\d+)\)$/i\<close>. A run of digits is followed by a comma or a
  bracket, and white space by a digit, so no greedy match ever gives a code unit back.
\<close>

definition digitsThen :: "nat \<Rightarrow> jsstring \<Rightarrow> (jsstring \<times> jsstring) option" where
  "digitsThen c s =
     (if takeWhile isDigit s = [] then None
      else (case dropWhile isDigit s of
              [] \<Rightarrow> None
            | d # r \<Rightarrow> if d = c then Some (takeWhile isDigit s, r) else None))"

definition matchRgb :: "jsstring \<Rightarrow> (jsstring \<times> jsstring \<times> jsstring) option" where
  "matchRgb v =
     (case startsWithCI (lit ''rgb('') v of
        None \<Rightarrow> None
      | Some r0 \<Rightarrow>
          (case digitsThen 44 r0 of
             None \<Rightarrow> None
           | Some (r, r1) \<Rightarrow>
               (case digitsThen 44 (dropWhile isSpace r1) of
                  None \<Rightarrow> None
                | Some (g, r2) \<Rightarrow>
                    (case digitsThen 41 (dropWhile isSpace r2) of
                       None \<Rightarrow> None
                     | Some (b, r3) \<Rightarrow> if r3 = [] then Some (r, g, b) else None))))"

text \<open>The function \<open>n => parseInt(n).toString(16).padStart(2, '0')\<close> of \<open>normColor\<close>.\<close>

definition hexByte :: "jsstring \<Rightarrow> jsstring" where
  "hexByte n = padStart2 (toString16 (parseInt n))"

definition normColor :: "jsstring \<Rightarrow> jsstring option" where
  "normColor val =
     (if isHexColor (trim val) then Some (toLowerCase (trim val))
      else (case matchRgb (trim val) of
              Some (r, g, b) \<Rightarrow> Some (35 # concat (map hexByte [r, g, b]))
            | None \<Rightarrow> None))"

text \<open>\<open>String.prototype.split\<close> with a separator of one code unit.\<close>

fun splitOn :: "nat \<Rightarrow> jsstring \<Rightarrow> jsstring list" where
  "splitOn c [] = [[]]"
| "splitOn c (d # ds) =
     (if d = c then [] # splitOn c ds
      else (case splitOn c ds of [] \<Rightarrow> [[d]] | x # xs \<Rightarrow> (d # x) # xs))"

text \<open>\<open>String.prototype.includes\<close>.\<close>

fun includesStr :: "jsstring \<Rightarrow> jsstring \<Rightarrow> bool" where
  "includesStr p [] = (startsWith p [] \<noteq> None)"
| "includesStr p (c # cs) = (startsWith p (c # cs) \<noteq> None \<or> includesStr p cs)"

text \<open>
  The style record of a class: \<open>parseCssClass\<close> starts from the empty object and sets a
  property when a declaration gives it; a property that was never set is \<open>None\<close>.
\<close>

record style =
  bold :: "bool option"
  italic :: "bool option"
  color :: "jsstring option"
  bgColor :: "jsstring option"
  align :: "jsstring option"
  fontSize :: "jsnum option"
  fontFamily :: "jsstring option"
  borderTop :: "bool option"
  borderBottom :: "bool option"
  borderLeft :: "bool option"
  borderRight :: "bool option"

definition emptyStyle :: style where
  "emptyStyle =
     \<lparr>bold = None, italic = None, color = None, bgColor = None, align = None,
      fontSize = None, fontFamily = None, borderTop = None, borderBottom = None,
      borderLeft = None, borderRight = None\<rparr>"

text \<open>
  \<open>families[0]\<close>; \<open>split\<close> never gives an empty array (\<open>splitOn_not_Nil\<close> below), so the
  first case is never taken.
\<close>

definition first :: "jsstring list \<Rightarrow> jsstring" where
  "first fs = (case fs of [] \<Rightarrow> [] | f # _ \<Rightarrow> f)"

definition families :: "jsstring \<Rightarrow> jsstring list" where
  "families val = map (\<lambda>f. trim (filter (\<lambda>c. c \<noteq> 34 \<and> c \<noteq> 39) f)) (splitOn 44 val)"

text \<open>
  \<open>families.find(f => !f.toLowerCase().startsWith('docs-')) || families[0]\<close>: the empty
  string is false in a condition, so an empty entry that \<open>find\<close> gives is replaced as well.
\<close>

definition pickFamily :: "jsstring list \<Rightarrow> jsstring" where
  "pickFamily fs =
     (case List.find (\<lambda>f. startsWith (lit ''docs-'') (toLowerCase f) = None) fs of
        Some f \<Rightarrow> if f \<noteq> [] then f else first fs
      | None \<Rightarrow> first fs)"

text \<open>The chain of tests in the body of the loop of \<open>parseCssClass\<close>, in the order of the source.\<close>

definition applyDecl :: "style \<Rightarrow> jsstring \<Rightarrow> jsstring \<Rightarrow> jsstring \<Rightarrow> style" where
  "applyDecl result key val vl =
     (if key = lit ''font-weight'' \<and> vl = lit ''bold'' then result\<lparr>bold := Some True\<rparr>
      else if key = lit ''font-style'' \<and> vl = lit ''italic'' then result\<lparr>italic := Some True\<rparr>
      else if key = lit ''color'' then
        (case normColor val of
           Some c \<Rightarrow> if c \<noteq> [] then result\<lparr>color := Some c\<rparr> else result
         | None \<Rightarrow> result)
      else if key = lit ''background-color'' then
        (case normColor val of
           Some c \<Rightarrow> if c \<noteq> [] then result\<lparr>bgColor := Some c\<rparr> else result
         | None \<Rightarrow> result)
      else if key = lit ''text-align'' then
        (if vl = lit ''left'' \<or> vl = lit ''center'' \<or> vl = lit ''right''
         then result\<lparr>align := Some vl\<rparr> else result)
      else if key = lit ''font-size'' then
        (case parsePtPx val of
           Some n \<Rightarrow> if truthyNum n then result\<lparr>fontSize := Some n\<rparr> else result
         | None \<Rightarrow> result)
      else if key = lit ''font-family'' then
        result\<lparr>fontFamily := Some (pickFamily (families val))\<rparr>
      else if key = lit ''border-top'' then
        result\<lparr>borderTop := Some (\<not> includesStr (lit ''none'') vl)\<rparr>
      else if key = lit ''border-bottom'' then
        result\<lparr>borderBottom := Some (\<not> includesStr (lit ''none'') vl)\<rparr>
      else if key = lit ''border-left'' then
        result\<lparr>borderLeft := Some (\<not> includesStr (lit ''none'') vl)\<rparr>
      else if key = lit ''border-right'' then
        result\<lparr>borderRight := Some (\<not> includesStr (lit ''none'') vl)\<rparr>
      else result)"

text \<open>One round of the loop: a declaration without a colon is skipped.\<close>

definition parseDecl :: "style \<Rightarrow> jsstring \<Rightarrow> style" where
  "parseDecl result raw =
     (case splitAt 58 raw of
        None \<Rightarrow> result
      | Some (k, v) \<Rightarrow> applyDecl result (toLowerCase (trim k)) (trim v) (toLowerCase (trim v)))"

definition parseCssClass :: "jsstring \<Rightarrow> style" where
  "parseCssClass decls = foldl parseDecl emptyStyle (splitOn 59 decls)"

section \<open>Regular expressions of \<open>convertHtml\<close>\<close>

text \<open>
  A regular expression is modelled by its match at the start of a text: the groups it
  captures and the text after the match. \<open>search\<close> is \<open>exec\<close> (or \<open>String.prototype.match\<close>
  without the flag \<open>g\<close>): the first position, from the left, where there is a match.
  \<open>allMatches\<close> is the loop \<open>while ((m = re.exec(s)) !== null)\<close> of a regular expression
  with the flag \<open>g\<close>: each search starts where the last match ended. No expression of the
  program looks behind the start of its match, so the text before it can be dropped.
\<close>

type_synonym 'a matcher = "jsstring \<Rightarrow> ('a \<times> jsstring) option"

fun search :: "'a matcher \<Rightarrow> jsstring \<Rightarrow> ('a \<times> jsstring) option" where
  "search m [] = m []"
| "search m (c # cs) = (case m (c # cs) of Some r \<Rightarrow> Some r | None \<Rightarrow> search m cs)"

text \<open>
  Every match of the expressions below consumes input (they all start with literal text), so
  the test on the lengths always holds for them (\<open>allMatches_tags\<close> below); it makes the
  definition total for any matcher.
\<close>

function allMatches :: "'a matcher \<Rightarrow> jsstring \<Rightarrow> 'a list" where
  "allMatches m s =
     (case search m s of
        None \<Rightarrow> []
      | Some (g, rest) \<Rightarrow> if length rest < length s then g # allMatches m rest else [g])"
  by pat_completeness auto
termination
  by (relation "measure (\<lambda>(m, s). length s)") auto

declare allMatches.simps [simp del]

text \<open>
  \<open>/<style[^>]*>([\s\S]*?)<\/style>/gi\<close>, \<open>/<tr[^>]*>([\s\S]*?)<\/tr>/gi\<close> and
  \<open>/<td([^>]*)>([\s\S]*?)<\/td>/gi\<close> have one shape: the start of a tag, everything up to
  the first \<open>>\<close>, then the shortest text that the end tag follows. The match gives the
  text inside the start tag and the text between the tags.
\<close>

definition tagRe :: "jsstring \<Rightarrow> jsstring \<Rightarrow> (jsstring \<times> jsstring) matcher" where
  "tagRe start finish s =
     (case startsWithCI start s of
        None \<Rightarrow> None
      | Some r \<Rightarrow>
          (case splitAt 62 r of
             None \<Rightarrow> None
           | Some (attrs, r') \<Rightarrow>
               (case findCI finish r' of
                  None \<Rightarrow> None
                | Some (body, rest) \<Rightarrow> Some ((attrs, body), rest))))"

definition styleRe :: "(jsstring \<times> jsstring) matcher" where
  "styleRe = tagRe (lit ''<style'') (lit ''</style>'')"

definition rowRe :: "(jsstring \<times> jsstring) matcher" where
  "rowRe = tagRe (lit ''<tr'') (lit ''</tr>'')"

definition cellRe :: "(jsstring \<times> jsstring) matcher" where
  "cellRe = tagRe (lit ''<td'') (lit ''</td>'')"

text \<open>
  \<open>/\.waffle\s+\.(\w+)\s*\{([^}]*)\}/g\<close>: the groups are the class name and the
  declarations. White space is followed by a dot, and the name by white space or a brace, so
  the greedy matches never give a code unit back.
\<close>

definition cssRe :: "(jsstring \<times> jsstring) matcher" where
  "cssRe s =
     (case startsWith (lit ''.waffle'') s of
        None \<Rightarrow> None
      | Some r \<Rightarrow>
          if takeWhile isSpace r = [] then None
          else (case startsWith [46] (dropWhile isSpace r) of
                  None \<Rightarrow> None
                | Some r1 \<Rightarrow>
                    if takeWhile isWord r1 = [] then None
                    else (case startsWith [123] (dropWhile isSpace (dropWhile isWord r1)) of
                            None \<Rightarrow> None
                          | Some r2 \<Rightarrow>
                              (case splitAt 125 r2 of
                                 None \<Rightarrow> None
                               | Some (decls, rest) \<Rightarrow>
                                   Some ((takeWhile isWord r1, decls), rest)))))"

text \<open>\<open>/<tbody>([\s\S]*?)<\/tbody>/i\<close>.\<close>

definition tbodyRe :: "jsstring matcher" where
  "tbodyRe s =
     (case startsWithCI (lit ''<tbody>'') s of
        None \<Rightarrow> None
      | Some r \<Rightarrow> findCI (lit ''</tbody>'') r)"

text \<open>\<open>/class=["']([^"']*)["']/i\<close>.\<close>

definition isQuote :: "nat \<Rightarrow> bool" where
  "isQuote c \<longleftrightarrow> c = 34 \<or> c = 39"

definition classRe :: "jsstring matcher" where
  "classRe s =
     (case startsWithCI (lit ''class='') s of
        None \<Rightarrow> None
      | Some r \<Rightarrow>
          (case r of
             [] \<Rightarrow> None
           | q # r1 \<Rightarrow> if isQuote q then breakAt isQuote r1 else None))"

section \<open>The map from class names to styles\<close>

text \<open>
  \<open>styleMap\<close> is an ordinary object, so it has the prototype \<open>Object.prototype\<close>, and an
  assignment to its property \<open>__proto__\<close> does not add a property: it replaces the prototype
  by the assigned style record. The model keeps the properties the object owns and the style
  record that became its prototype, if any.
\<close>

record styleMap =
  own :: "jsstring \<rightharpoonup> style"
  proto :: "style option"

definition emptyMap :: styleMap where
  "emptyMap = \<lparr>own = Map.empty, proto = None\<rparr>"

definition setClass :: "styleMap \<Rightarrow> jsstring \<Rightarrow> style \<Rightarrow> styleMap" where
  "setClass sm name st =
     (if name = lit ''__proto__'' then sm\<lparr>proto := Some st\<rparr>
      else sm\<lparr>own := (own sm)(name \<mapsto> st)\<rparr>)"

definition addRule :: "styleMap \<Rightarrow> jsstring \<times> jsstring \<Rightarrow> styleMap" where
  "addRule sm cm = setClass sm (fst cm) (parseCssClass (snd cm))"

definition addBlock :: "styleMap \<Rightarrow> jsstring \<times> jsstring \<Rightarrow> styleMap" where
  "addBlock sm block = foldl addRule sm (allMatches cssRe (snd block))"

definition buildStyleMap :: "jsstring \<Rightarrow> styleMap" where
  "buildStyleMap src = foldl addBlock emptyMap (allMatches styleRe src)"

text \<open>
  What \<open>styleMap[cls]\<close> can be: nothing, a style record, or something that the prototype
  chain gives: a property of the style record that became the prototype (a string, a boolean
  or a number), or a property of \<open>Object.prototype\<close> (a function, or that object itself).
\<close>

datatype jsval = Undefined | Obj style | Str jsstring | Bool bool | Number jsnum | Builtin

definition objectPrototypeNames :: "jsstring list" where
  "objectPrototypeNames =
     map lit [''constructor'', ''__defineGetter__'', ''__defineSetter__'', ''hasOwnProperty'',
              ''__lookupGetter__'', ''__lookupSetter__'', ''isPrototypeOf'',
              ''propertyIsEnumerable'', ''toString'', ''valueOf'', ''__proto__'',
              ''toLocaleString'']"

definition fromObjectPrototype :: "jsstring \<Rightarrow> jsval" where
  "fromObjectPrototype name = (if name \<in> set objectPrototypeNames then Builtin else Undefined)"

definition getField :: "style \<Rightarrow> jsstring \<Rightarrow> jsval option" where
  "getField st name =
     (if name = lit ''bold'' then map_option Bool (bold st)
      else if name = lit ''italic'' then map_option Bool (italic st)
      else if name = lit ''color'' then map_option Str (color st)
      else if name = lit ''bgColor'' then map_option Str (bgColor st)
      else if name = lit ''align'' then map_option Str (align st)
      else if name = lit ''fontSize'' then map_option Number (fontSize st)
      else if name = lit ''fontFamily'' then map_option Str (fontFamily st)
      else if name = lit ''borderTop'' then map_option Bool (borderTop st)
      else if name = lit ''borderBottom'' then map_option Bool (borderBottom st)
      else if name = lit ''borderLeft'' then map_option Bool (borderLeft st)
      else if name = lit ''borderRight'' then map_option Bool (borderRight st)
      else None)"

definition styleLookup :: "styleMap \<Rightarrow> jsstring \<Rightarrow> jsval" where
  "styleLookup sm cls =
     (if cls = lit ''__proto__'' then (case proto sm of Some st \<Rightarrow> Obj st | None \<Rightarrow> Builtin)
      else (case own sm cls of
              Some st \<Rightarrow> Obj st
            | None \<Rightarrow>
                (case proto sm of
                   None \<Rightarrow> fromObjectPrototype cls
                 | Some st \<Rightarrow>
                     (case getField st cls of
                        Some v \<Rightarrow> v
                      | None \<Rightarrow> fromObjectPrototype cls))))"

text \<open>The truth value of \<open>s\<close> in \<open>if (s)\<close>.\<close>

fun truthy :: "jsval \<Rightarrow> bool" where
  "truthy Undefined = False"
| "truthy (Obj st) = True"
| "truthy (Str s) = (s \<noteq> [])"
| "truthy (Bool b) = b"
| "truthy (Number n) = truthyNum n"
| "truthy Builtin = True"

text \<open>
  The properties that the cell code reads from \<open>s\<close>. A style record has those that
  \<open>parseCssClass\<close> set. A string has none of them but \<open>bold\<close>, which is the function
  \<open>String.prototype.bold\<close> and so counts as true; a boolean, a number, a function and
  \<open>Object.prototype\<close> have none.
\<close>

fun propsOf :: "jsval \<Rightarrow> style" where
  "propsOf (Obj st) = st"
| "propsOf (Str s) = emptyStyle\<lparr>bold := Some True\<rparr>"
| "propsOf v = emptyStyle"

section \<open>The table walk\<close>

text \<open>
  The object \<open>fmt\<close> of a cell and its border object. A property of \<open>fmt\<close> that was not set
  is \<open>None\<close>.
\<close>

record cellFormat =
  fmt_bold :: "bool option"
  fmt_italic :: "bool option"
  fmt_color :: "jsstring option"
  fmt_bgColor :: "jsstring option"
  fmt_fontSize :: "jsnum option"
  fmt_fontFamily :: "jsstring option"
  fmt_align :: "jsstring option"

record cellBorders =
  b_top :: bool
  b_bottom :: bool
  b_left :: bool
  b_right :: bool

definition emptyFmt :: cellFormat where
  "emptyFmt =
     \<lparr>fmt_bold = None, fmt_italic = None, fmt_color = None, fmt_bgColor = None,
      fmt_fontSize = None, fmt_fontFamily = None, fmt_align = None\<rparr>"

text \<open>The truth value of a property in a condition: a string is true when it is not empty.\<close>

definition isTrue :: "bool option \<Rightarrow> bool" where
  "isTrue b \<longleftrightarrow> b = Some True"

definition keepStr :: "jsstring option \<Rightarrow> jsstring option" where
  "keepStr v = (case v of Some x \<Rightarrow> if x \<noteq> [] then Some x else None | None \<Rightarrow> None)"

definition keepStrBut :: "jsstring \<Rightarrow> jsstring option \<Rightarrow> jsstring option" where
  "keepStrBut dflt v =
     (case v of Some x \<Rightarrow> if x \<noteq> [] \<and> x \<noteq> dflt then Some x else None | None \<Rightarrow> None)"

definition keepNum :: "jsnum option \<Rightarrow> jsnum option" where
  "keepNum v = (case v of Some n \<Rightarrow> if truthyNum n then Some n else None | None \<Rightarrow> None)"

definition keepTrue :: "bool option \<Rightarrow> bool option" where
  "keepTrue v = (if isTrue v then Some True else None)"

definition buildFmt :: "style \<Rightarrow> cellFormat" where
  "buildFmt s =
     \<lparr>fmt_bold = keepTrue (bold s),
      fmt_italic = keepTrue (italic s),
      fmt_color = keepStrBut (lit ''#000000'') (color s),
      fmt_bgColor = keepStrBut (lit ''#ffffff'') (bgColor s),
      fmt_fontSize = keepNum (fontSize s),
      fmt_fontFamily = keepStr (fontFamily s),
      fmt_align = keepStr (align s)\<rparr>"

definition buildBorders :: "style \<Rightarrow> cellBorders" where
  "buildBorders s =
     \<lparr>b_top = isTrue (borderTop s), b_bottom = isTrue (borderBottom s),
      b_left = isTrue (borderLeft s), b_right = isTrue (borderRight s)\<rparr>"

text \<open>
  The objects \<open>formats\<close> and \<open>borders\<close>, and their rows, have numbers as keys. An object is
  the list of its properties in the order of their creation; \<open>setProp\<close> is an assignment to
  a property, and \<open>setCell\<close> is \<open>if (!obj[rowIdx]) obj[rowIdx] = {}; obj[rowIdx][colIdx] = v\<close>.
\<close>

type_synonym 'a jsobj = "(nat \<times> 'a) list"

fun setProp :: "nat \<Rightarrow> 'a \<Rightarrow> 'a jsobj \<Rightarrow> 'a jsobj" where
  "setProp k v [] = [(k, v)]"
| "setProp k v (p # ps) = (if fst p = k then (k, v) # ps else p # setProp k v ps)"

definition setCell :: "nat \<Rightarrow> nat \<Rightarrow> 'a \<Rightarrow> 'a jsobj jsobj \<Rightarrow> 'a jsobj jsobj" where
  "setCell rowIdx colIdx v obj =
     (case map_of obj rowIdx of
        None \<Rightarrow> setProp rowIdx (setProp colIdx v []) obj
      | Some cols \<Rightarrow> setProp rowIdx (setProp colIdx v cols) obj)"

record tables =
  formats :: "cellFormat jsobj jsobj"
  borders :: "cellBorders jsobj jsobj"

record state = tables +
  aoa :: "jsstring list list"

record document = tables +
  version :: nat
  data :: "jsstring list list"

text \<open>The class of a cell: the group of the first match of \<open>classRe\<close>, trimmed, or \<open>''\<close>.\<close>

definition cellClass :: "jsstring \<Rightarrow> jsstring" where
  "cellClass attrs = (case search classRe attrs of Some (g, rest) \<Rightarrow> trim g | None \<Rightarrow> [])"

definition recordFormat :: "nat \<Rightarrow> nat \<Rightarrow> style \<Rightarrow> state \<Rightarrow> state" where
  "recordFormat rowIdx colIdx s st =
     (if buildFmt s \<noteq> emptyFmt
      then st\<lparr>formats := setCell rowIdx colIdx (buildFmt s) (formats st)\<rparr>
      else st)"

definition recordBorders :: "nat \<Rightarrow> nat \<Rightarrow> style \<Rightarrow> state \<Rightarrow> state" where
  "recordBorders rowIdx colIdx s st =
     (if isTrue (borderTop s) \<or> isTrue (borderBottom s) \<or> isTrue (borderLeft s)
         \<or> isTrue (borderRight s)
      then st\<lparr>borders := setCell rowIdx colIdx (buildBorders s) (borders st)\<rparr>
      else st)"

definition styleCell :: "jsval \<Rightarrow> nat \<Rightarrow> nat \<Rightarrow> state \<Rightarrow> state" where
  "styleCell s rowIdx colIdx st =
     (if truthy s
      then recordBorders rowIdx colIdx (propsOf s) (recordFormat rowIdx colIdx (propsOf s) st)
      else st)"

definition processCell :: "styleMap \<Rightarrow> nat \<Rightarrow> nat \<Rightarrow> jsstring \<Rightarrow> state \<Rightarrow> state" where
  "processCell sm rowIdx colIdx attrs st =
     styleCell (styleLookup sm (cellClass attrs)) rowIdx colIdx st"

text \<open>The loop over the cells of a row: the row so far, and the state.\<close>

fun cellLoop ::
  "styleMap \<Rightarrow> nat \<Rightarrow> nat \<Rightarrow> (jsstring \<times> jsstring) list \<Rightarrow> jsstring list \<Rightarrow> state
     \<Rightarrow> jsstring list \<times> state" where
  "cellLoop sm rowIdx colIdx [] rowData st = (rowData, st)"
| "cellLoop sm rowIdx colIdx (cellM # cells) rowData st =
     cellLoop sm rowIdx (colIdx + 1) cells (rowData @ [stripTags (snd cellM)])
       (processCell sm rowIdx colIdx (fst cellM) st)"

text \<open>The loop over the rows: \<open>rowIdx\<close> is the number of rows collected so far.\<close>

definition pushRow :: "jsstring list \<times> state \<Rightarrow> state" where
  "pushRow r = (snd r)\<lparr>aoa := aoa (snd r) @ [fst r]\<rparr>"

fun rowLoop :: "styleMap \<Rightarrow> (jsstring \<times> jsstring) list \<Rightarrow> state \<Rightarrow> state" where
  "rowLoop sm [] st = st"
| "rowLoop sm (rowM # rows) st =
     rowLoop sm rows
       (pushRow (cellLoop sm (length (aoa st)) 0 (allMatches cellRe (snd rowM)) [] st))"

definition initState :: state where
  "initState = \<lparr>formats = [], borders = [], aoa = []\<rparr>"

definition parseRows :: "styleMap \<Rightarrow> jsstring \<Rightarrow> state" where
  "parseRows sm tbodyHtml = rowLoop sm (allMatches rowRe tbodyHtml) initState"

text \<open>
  The loop that trims the rows: \<open>lastRow\<close> goes down from the last index while the row there
  has only empty texts. The index is in range whenever the row is read.
\<close>

definition emptyRow :: "jsstring list \<Rightarrow> bool" where
  "emptyRow r \<longleftrightarrow> list_all (\<lambda>v. v = []) r"

function trimLoop :: "jsstring list list \<Rightarrow> int \<Rightarrow> int" where
  "trimLoop rows lastRow =
     (if 0 \<le> lastRow \<and> emptyRow (rows ! nat lastRow) then trimLoop rows (lastRow - 1)
      else lastRow)"
  by pat_completeness auto
termination
  by (relation "measure (\<lambda>(rows, lastRow). nat (lastRow + 1))") auto

declare trimLoop.simps [simp del]

definition trimmedData :: "jsstring list list \<Rightarrow> jsstring list list" where
  "trimmedData rows = take (nat (trimLoop rows (int (length rows) - 1) + 1)) rows"

section \<open>The conversion\<close>

datatype error = NoTbody

text \<open>
  The object that \<open>convertHtml\<close> hands to \<open>JSON.stringify\<close>, for the text \<open>src\<close> of the
  file; the error is \<open>throw new Error('No <tbody> found')\<close>.
\<close>

definition makeDocument :: "state \<Rightarrow> document" where
  "makeDocument st =
     \<lparr>formats = formats st, borders = borders st, version = 1, data = trimmedData (aoa st)\<rparr>"

definition buildDocument :: "jsstring \<Rightarrow> error + document" where
  "buildDocument src =
     (case search tbodyRe src of
        None \<Rightarrow> Inl NoTbody
      | Some (tbodyHtml, rest) \<Rightarrow> Inr (makeDocument (parseRows (buildStyleMap src) tbodyHtml)))"

text \<open>
  What \<open>JSON.stringify\<close> writes is fixed by the value it is given: the properties of an
  object in the order in which the language lists them (keys that are numbers first, in
  rising order, then the others in the order of their creation), \<open>null\<close> for a number that
  is not finite. The model gives that value as a tree; its text has no white space.
\<close>

datatype json =
  JNull | JBool bool | JNumber rat | JString jsstring | JArray "json list"
  | JObject "(jsstring \<times> json) list"

function decimal :: "nat \<Rightarrow> jsstring" where
  "decimal n = (if n < 10 then [48 + n] else decimal (n div 10) @ [48 + n mod 10])"
  by pat_completeness auto
termination
  by (relation "measure id") auto

declare decimal.simps [simp del]

fun jsonNum :: "jsnum \<Rightarrow> json" where
  "jsonNum (Num q) = JNumber q"
| "jsonNum Infinity = JNull"
| "jsonNum NaN = JNull"

definition optField :: "string \<Rightarrow> ('a \<Rightarrow> json) \<Rightarrow> 'a option \<Rightarrow> (jsstring \<times> json) list" where
  "optField name f v = (case v of None \<Rightarrow> [] | Some x \<Rightarrow> [(lit name, f x)])"

definition fmtJson :: "cellFormat \<Rightarrow> json" where
  "fmtJson f =
     JObject (optField ''bold'' JBool (fmt_bold f) @ optField ''italic'' JBool (fmt_italic f)
       @ optField ''color'' JString (fmt_color f) @ optField ''bgColor'' JString (fmt_bgColor f)
       @ optField ''fontSize'' jsonNum (fmt_fontSize f)
       @ optField ''fontFamily'' JString (fmt_fontFamily f)
       @ optField ''align'' JString (fmt_align f))"

definition bordersJson :: "cellBorders \<Rightarrow> json" where
  "bordersJson b =
     JObject [(lit ''top'', JBool (b_top b)), (lit ''bottom'', JBool (b_bottom b)),
              (lit ''left'', JBool (b_left b)), (lit ''right'', JBool (b_right b))]"

definition propJson :: "('a \<Rightarrow> json) \<Rightarrow> nat \<times> 'a \<Rightarrow> jsstring \<times> json" where
  "propJson f p = (decimal (fst p), f (snd p))"

definition objJson :: "('a \<Rightarrow> json) \<Rightarrow> 'a jsobj \<Rightarrow> json" where
  "objJson f obj = JObject (map (propJson f) (sort_key fst obj))"

definition rowJson :: "jsstring list \<Rightarrow> json" where
  "rowJson row = JArray (map JString row)"

definition stringify :: "document \<Rightarrow> json" where
  "stringify d =
     JObject [(lit ''version'', JNumber (of_nat (version d))),
              (lit ''data'', JArray (map rowJson (data d))),
              (lit ''formats'', objJson (objJson fmtJson) (formats d)),
              (lit ''borders'', objJson (objJson bordersJson) (borders d))]"

text \<open>\<open>convertHtml\<close>, for the text of the file: the value of the text it returns, or the error.\<close>

definition convertHtml :: "jsstring \<Rightarrow> error + json" where
  "convertHtml src = (case buildDocument src of Inl e \<Rightarrow> Inl e | Inr d \<Rightarrow> Inr (stringify d))"

section \<open>Rules that evaluate the model on a given text\<close>

lemma floor_numeral_div [simp]:
  "\<lfloor>(numeral a :: rat) / numeral b\<rfloor> = numeral a div numeral b"
  using floor_divide_of_int_eq [of "numeral a" "numeral b", where ?'a = rat] by simp

lemma ceiling_numeral_div [simp]:
  "\<lceil>(numeral a :: rat) / numeral b\<rceil> = - ((- numeral a) div numeral b)"
  unfolding ceiling_def
  using floor_divide_of_int_eq [of "- numeral a" "numeral b", where ?'a = rat] by simp

lemma floor_one_div [simp]: "\<lfloor>(1 :: rat) / numeral b\<rfloor> = 1 div numeral b"
  using floor_divide_of_int_eq [of 1 "numeral b", where ?'a = rat] by simp

lemma ceiling_one_div [simp]: "\<lceil>(1 :: rat) / numeral b\<rceil> = - ((- 1) div numeral b)"
  unfolding ceiling_def
  using floor_divide_of_int_eq [of "- 1" "numeral b", where ?'a = rat] by simp

lemmas unit_ev =
  isSpace_def [of "numeral k"] isDigit_def [of "numeral k"] isUpper_def [of "numeral k"]
  isLower_def [of "numeral k"] isWord_def [of "numeral k"] canon_def [of "numeral k"]
  lowerUnit_def [of "numeral k"] isDigitOrDot_def [of "numeral k"] isHex_def [of "numeral k"]
  isQuote_def [of "numeral k"]
  hexDigit_def [of "numeral k"] hexDigit_def [of 0] hexDigit_def [of 1] hexDigit_def [of "Suc 0"]
  for k

lemmas num_ev =
  nbits.simps [of "numeral k"] nbits.simps [of 0] nbits.simps [of 1] nbits.simps [of "Suc 0"]
  hexDigits.simps [of "numeral k"] hexDigits.simps [of 0] hexDigits.simps [of 1]
  hexDigits.simps [of "Suc 0"]
  decimal.simps [of "numeral k"] decimal.simps [of 0] decimal.simps [of 1]
  decimal.simps [of "Suc 0"]
  toDouble_def [of "numeral k"] toDouble_def [of "numeral k / numeral l"] toDouble_def [of 0]
  toDouble_def [of 1] toDouble_def [of "1 / numeral l"]
  ilog2_def roundHalfEven_def scale2_def roundAt_def Let_def c1333_def
  for k l

lemmas str_ev =
  lit_def
  toLowerCase_def [of "[]"] toLowerCase_def [of "c # cs"]
  trim_def [of "[]"] trim_def [of "c # cs"]
  fracDigits_def [of "[]"] fracDigits_def [of "c # cs"]
  decimalValue_def [of "[]" "[]"] decimalValue_def [of "[]" "c # cs"]
  decimalValue_def [of "c # cs" "[]"] decimalValue_def [of "c # cs" "d # ds"]
  parseFloat_def [of "[]"] parseFloat_def [of "c # cs"]
  parseInt_def [of "[]"] parseInt_def [of "c # cs"]
  padStart2_def [of "[]"] padStart2_def [of "c # cs"]
  matchSize_def [of _ "[]"] matchSize_def [of _ "c # cs"]
  parsePtPx_def [of "[]"] parsePtPx_def [of "c # cs"]
  isHexColor_def [of "[]"] isHexColor_def [of "c # cs"]
  digitsThen_def [of _ "[]"] digitsThen_def [of _ "c # cs"]
  matchRgb_def [of "[]"] matchRgb_def [of "c # cs"]
  hexByte_def [of "[]"] hexByte_def [of "c # cs"]
  normColor_def [of "[]"] normColor_def [of "c # cs"]
  stripTags_def [of "[]"] stripTags_def [of "c # cs"]
  splitAt_def
  for c :: nat and cs :: "nat list" and d :: nat and ds :: "nat list"

lemmas css_ev =
  parseCssClass_def [of "[]"] parseCssClass_def [of "c # cs"]
  parseDecl_def [of _ "[]"] parseDecl_def [of _ "c # cs"]
  applyDecl_def [of _ "[]"] applyDecl_def [of _ "c # cs"]
  pickFamily_def [of "[]"] pickFamily_def [of "f # fs"]
  first_def [of "[]"] first_def [of "f # fs"]
  families_def [of "[]"] families_def [of "c # cs"] emptyStyle_def
  for c :: nat and cs :: "nat list" and f :: "nat list" and fs :: "nat list list"

lemmas doc_ev =
  allMatches.simps [of _ "[]"] allMatches.simps [of _ "c # cs"]
  tagRe_def [of _ _ "[]"] tagRe_def [of _ _ "c # cs"] styleRe_def rowRe_def cellRe_def
  cssRe_def [of "[]"] cssRe_def [of "c # cs"]
  tbodyRe_def [of "[]"] tbodyRe_def [of "c # cs"]
  classRe_def [of "[]"] classRe_def [of "c # cs"]
  setClass_def [of _ "[]"] setClass_def [of _ "c # cs"]
  addRule_def [of _ "(a, b)"] addBlock_def [of _ "(a, b)"]
  buildStyleMap_def [of "[]"] buildStyleMap_def [of "c # cs"] emptyMap_def
  styleLookup_def [of _ "[]"] styleLookup_def [of _ "c # cs"]
  getField_def [of _ "[]"] getField_def [of _ "c # cs"]
  fromObjectPrototype_def [of "[]"] fromObjectPrototype_def [of "c # cs"]
  objectPrototypeNames_def
  emptyFmt_def isTrue_def keepStr_def keepStrBut_def keepNum_def keepTrue_def buildFmt_def
  buildBorders_def setCell_def cellClass_def [of "[]"] cellClass_def [of "c # cs"]
  recordFormat_def recordBorders_def styleCell_def processCell_def pushRow_def initState_def
  parseRows_def [of _ "[]"] parseRows_def [of _ "c # cs"]
  emptyRow_def trimLoop.simps [of _ "numeral k"] trimLoop.simps [of _ 0]
  trimLoop.simps [of _ 1] trimLoop.simps [of _ "- 1"]
  trimmedData_def makeDocument_def buildDocument_def [of "[]"] buildDocument_def [of "c # cs"]
  for c :: nat and cs :: "nat list" and k and a :: "nat list" and b :: "nat list"

lemmas json_ev =
  optField_def fmtJson_def bordersJson_def propJson_def objJson_def rowJson_def stringify_def
  convertHtml_def [of "[]"] convertHtml_def [of "c # cs"]
  for c :: nat and cs :: "nat list"

lemmas ev = unit_ev num_ev str_ev css_ev doc_ev json_ev

section \<open>The loops over matches go on\<close>

text \<open>
  \<open>split\<close> gives at least one part. A match of a pattern that is not empty, and a match of
  each of the four regular expressions with the flag \<open>g\<close>, ends after its start, so the tests
  on the lengths in \<open>replaceAll\<close> and \<open>allMatches\<close> hold wherever the program uses them.
\<close>

lemma splitOn_not_Nil: "splitOn c s \<noteq> []"
  by (induction s) (auto split: list.splits)

lemma families_not_Nil: "families val \<noteq> []"
  by (simp add: families_def splitOn_not_Nil)

lemma startsWith_length: "startsWith p s = Some r \<Longrightarrow> length s = length p + length r"
  by (induction p s rule: startsWith.induct) (auto split: if_splits)

lemma startsWithCI_length: "startsWithCI p s = Some r \<Longrightarrow> length s = length p + length r"
  by (induction p s rule: startsWithCI.induct) (auto split: if_splits)

lemma findCI_length: "findCI p s = Some (b, a) \<Longrightarrow> length a \<le> length s"
proof (induction s arbitrary: b)
  case Nil
  then show ?case by (auto split: option.splits dest: startsWithCI_length)
next
  case (Cons c cs)
  then show ?case
    by (cases "startsWithCI p (c # cs)")
       (fastforce split: option.splits dest: startsWithCI_length)+
qed

lemma replaceAll_consumes:
  "p \<noteq> [] \<Longrightarrow> startsWith p s = Some rest \<Longrightarrow> length rest < length s"
  by (auto dest: startsWith_length)

lemma tagRe_consumes:
  assumes "start \<noteq> []" and "tagRe start finish s = Some (g, rest)"
  shows "length rest < length s"
proof -
  from assms(2) obtain r attrs r' body where
    1: "startsWithCI start s = Some r" and 2: "splitAt 62 r = Some (attrs, r')" and
    3: "findCI finish r' = Some (body, rest)"
    by (auto simp: tagRe_def split: option.splits)
  from 1 have "length r \<le> length s" by (auto dest: startsWithCI_length)
  moreover from 2 have "length r' < length r" by (rule splitAt_length)
  moreover from 3 have "length rest \<le> length r'" by (rule findCI_length)
  ultimately show ?thesis by simp
qed

lemma cssRe_consumes:
  assumes "cssRe s = Some (g, rest)"
  shows "length rest < length s"
proof -
  from assms obtain r r1 r2 decls where
    1: "startsWith (lit ''.waffle'') s = Some r" and
    2: "startsWith [46] (dropWhile isSpace r) = Some r1" and
    3: "startsWith [123] (dropWhile isSpace (dropWhile isWord r1)) = Some r2" and
    4: "splitAt 125 r2 = Some (decls, rest)"
    by (auto simp: cssRe_def split: option.splits if_splits)
  from 1 have "length r \<le> length s" by (auto dest: startsWith_length)
  moreover from 2 have "length r1 \<le> length (dropWhile isSpace r)"
    by (auto dest: startsWith_length)
  moreover have "length (dropWhile isSpace r) \<le> length r" by (rule length_dropWhile_le)
  moreover from 3 have "length r2 \<le> length (dropWhile isSpace (dropWhile isWord r1))"
    by (auto dest: startsWith_length)
  moreover have "length (dropWhile isSpace (dropWhile isWord r1)) \<le> length r1"
    by (meson length_dropWhile_le le_trans)
  moreover from 4 have "length rest < length r2" by (rule splitAt_length)
  ultimately show ?thesis by linarith
qed

lemma search_consumes:
  assumes "\<And>t g r. m t = Some (g, r) \<Longrightarrow> length r < length t"
  shows "search m s = Some (g, rest) \<Longrightarrow> length rest < length s"
proof (induction s)
  case Nil
  then show ?case using assms [of "[]" g rest] by simp
next
  case (Cons c cs)
  show ?case
  proof (cases "m (c # cs)")
    case None
    with Cons show ?thesis by fastforce
  next
    case (Some x)
    with Cons.prems have "m (c # cs) = Some (g, rest)" by simp
    then show ?thesis by (rule assms)
  qed
qed

lemma allMatches_loop:
  assumes "\<And>t g r. m t = Some (g, r) \<Longrightarrow> length r < length t"
  shows "allMatches m s
     = (case search m s of None \<Rightarrow> [] | Some (g, rest) \<Rightarrow> g # allMatches m rest)"
  using search_consumes [of m s, OF assms]
  by (subst allMatches.simps) (auto split: option.splits)

lemma allMatches_tags:
  "allMatches styleRe s
     = (case search styleRe s of None \<Rightarrow> [] | Some (g, rest) \<Rightarrow> g # allMatches styleRe rest)"
  "allMatches rowRe s
     = (case search rowRe s of None \<Rightarrow> [] | Some (g, rest) \<Rightarrow> g # allMatches rowRe rest)"
  "allMatches cellRe s
     = (case search cellRe s of None \<Rightarrow> [] | Some (g, rest) \<Rightarrow> g # allMatches cellRe rest)"
  "allMatches cssRe s
     = (case search cssRe s of None \<Rightarrow> [] | Some (g, rest) \<Rightarrow> g # allMatches cssRe rest)"
proof -
  have t: "tagRe (lit start) finish t = Some (g, r) \<Longrightarrow> length r < length t"
    if "start \<noteq> []" for start finish t g r
    using that by (intro tagRe_consumes [of "lit start"]) (simp_all add: lit_def)
  show "allMatches styleRe s
     = (case search styleRe s of None \<Rightarrow> [] | Some (g, rest) \<Rightarrow> g # allMatches styleRe rest)"
    unfolding styleRe_def by (rule allMatches_loop) (rule t, simp_all)
  show "allMatches rowRe s
     = (case search rowRe s of None \<Rightarrow> [] | Some (g, rest) \<Rightarrow> g # allMatches rowRe rest)"
    unfolding rowRe_def by (rule allMatches_loop) (rule t, simp_all)
  show "allMatches cellRe s
     = (case search cellRe s of None \<Rightarrow> [] | Some (g, rest) \<Rightarrow> g # allMatches cellRe rest)"
    unfolding cellRe_def by (rule allMatches_loop) (rule t, simp_all)
  show "allMatches cssRe s
     = (case search cssRe s of None \<Rightarrow> [] | Some (g, rest) \<Rightarrow> g # allMatches cssRe rest)"
    by (rule allMatches_loop) (rule cssRe_consumes)
qed

section \<open>Cell text\<close>

text \<open>
  C9. \<open>stripTags\<close> removes the tags first and then replaces the entities one after the
  other, each over the whole text, \<open>&amp;\<close> before \<open>&lt;\<close>, \<open>&gt;\<close>, \<open>&quot;\<close> and \<open>&#39;\<close>.
  So the text \<open>&amp;lt;\<close> becomes \<open>&lt;\<close> in the step for \<open>&amp;\<close> and then \<open><\<close> in the step
  for \<open>&lt;\<close>; the same holds for the three other entities, and an entity that only appears
  once a tag is removed is replaced as well.
\<close>

theorem stripTags_sequential:
  "stripTags html =
     trim (replaceAll (lit ''&#39;'') (lit [CHR 0x27])
          (replaceAll (lit ''&quot;'') (lit [CHR 0x22])
          (replaceAll (lit ''&gt;'') (lit ''>'')
          (replaceAll (lit ''&lt;'') (lit ''<'')
          (replaceAll (lit ''&amp;'') (lit ''&'')
          (replaceAll (lit ''&nbsp;'') (lit '' '')
          (removeTags html)))))))
   \<and> stripTags (lit ''&amp;lt;'') = lit ''<''
   \<and> stripTags (lit ''&amp;gt;'') = lit ''>''
   \<and> stripTags (lit ''&amp;quot;'') = lit [CHR 0x22]
   \<and> stripTags (lit ''&amp;#39;'') = lit [CHR 0x27]
   \<and> stripTags (lit ''a &amp;lt; b'') = lit ''a < b''
   \<and> stripTags (lit ''&l<b>t;'') = lit ''<''"
  by (simp add: stripTags_def str_ev unit_ev)

section \<open>Trimming the rows\<close>

lemma trimLoop_take:
  "- 1 \<le> k \<Longrightarrow> k < int (length rows) \<Longrightarrow>
   take (nat (trimLoop rows k + 1)) rows = rev (dropWhile emptyRow (rev (take (nat (k + 1)) rows)))"
proof (induction rows k rule: trimLoop.induct)
  case (1 rows lastRow)
  show ?case
  proof (cases "0 \<le> lastRow")
    case False
    with 1 have "lastRow = - 1" by simp
    then show ?thesis by (simp add: trimLoop.simps [of rows "- 1"])
  next
    case True
    then have n: "nat (lastRow + 1) = Suc (nat lastRow)" by simp
    from True 1 have lt: "nat lastRow < length rows" by simp
    have tk: "take (nat (lastRow + 1)) rows = take (nat lastRow) rows @ [rows ! nat lastRow]"
      using lt by (simp add: n take_Suc_conv_app_nth)
    show ?thesis
    proof (cases "emptyRow (rows ! nat lastRow)")
      case e: True
      have "trimLoop rows lastRow = trimLoop rows (lastRow - 1)"
        using True e by (subst trimLoop.simps) simp
      moreover have "take (nat (trimLoop rows (lastRow - 1) + 1)) rows
          = rev (dropWhile emptyRow (rev (take (nat (lastRow - 1 + 1)) rows)))"
        using 1 True e by (intro "1.IH") auto
      ultimately show ?thesis using e by (simp add: tk)
    next
      case ne: False
      have "trimLoop rows lastRow = lastRow"
        using ne by (subst trimLoop.simps) simp
      then show ?thesis using ne by (simp add: tk)
    qed
  qed
qed

lemma trimmedData_eq: "trimmedData rows = rev (dropWhile emptyRow (rev rows))"
  using trimLoop_take [of "int (length rows) - 1" rows] by (simp add: trimmedData_def)

lemma emptyRow_iff: "emptyRow r \<longleftrightarrow> (\<forall>v\<in>set r. v = [])"
  by (simp add: emptyRow_def list_all_iff)

text \<open>
  C5. The rows that \<open>convertHtml\<close> emits are the collected rows without their longest
  trailing run of rows whose texts are all empty: the collected rows are the emitted rows
  followed by a run of such rows, and the last emitted row, if there is one, has a text that
  is not empty. Every row before it is kept as it is, empty or not. (A row with no cell at
  all counts as a row whose texts are all empty.)
\<close>

theorem trimmedData_drops_trailing_empty_rows:
  "trimmedData rows = rev (dropWhile emptyRow (rev rows))
   \<and> (\<exists>suf. rows = trimmedData rows @ suf
          \<and> (\<forall>r\<in>set suf. \<forall>v\<in>set r. v = [])
          \<and> (trimmedData rows = [] \<or> (\<exists>v\<in>set (last (trimmedData rows)). v \<noteq> [])))
   \<and> (\<forall>d. buildDocument src = Inr d \<longrightarrow>
         (\<exists>tbodyHtml rest. search tbodyRe src = Some (tbodyHtml, rest)
            \<and> data d = trimmedData (aoa (parseRows (buildStyleMap src) tbodyHtml))))"
proof (intro conjI)
  show "trimmedData rows = rev (dropWhile emptyRow (rev rows))" by (rule trimmedData_eq)
  let ?suf = "rev (takeWhile emptyRow (rev rows))"
  have a: "rows = trimmedData rows @ ?suf"
    by (metis trimmedData_eq rev_append rev_rev_ident takeWhile_dropWhile_id)
  have b: "\<forall>r\<in>set ?suf. \<forall>v\<in>set r. v = []"
    using emptyRow_iff by (auto dest: set_takeWhileD)
  have c: "trimmedData rows = [] \<or> (\<exists>v\<in>set (last (trimmedData rows)). v \<noteq> [])"
  proof (cases "dropWhile emptyRow (rev rows)")
    case Nil
    then show ?thesis by (simp add: trimmedData_eq)
  next
    case (Cons r rs)
    then have "\<not> emptyRow r" by (metis hd_dropWhile list.sel(1) list.distinct(1))
    moreover have "last (trimmedData rows) = r" by (simp add: trimmedData_eq Cons)
    ultimately show ?thesis by (auto simp: emptyRow_iff)
  qed
  from a b c show "\<exists>suf. rows = trimmedData rows @ suf
          \<and> (\<forall>r\<in>set suf. \<forall>v\<in>set r. v = [])
          \<and> (trimmedData rows = [] \<or> (\<exists>v\<in>set (last (trimmedData rows)). v \<noteq> []))"
    by blast
  show "\<forall>d. buildDocument src = Inr d \<longrightarrow>
         (\<exists>tbodyHtml rest. search tbodyRe src = Some (tbodyHtml, rest)
            \<and> data d = trimmedData (aoa (parseRows (buildStyleMap src) tbodyHtml)))"
    by (auto simp: buildDocument_def makeDocument_def split: option.splits)
qed

text \<open>
  A table body of four rows: an empty cell, a cell with text, a cell with a space, and a row
  without cells.
\<close>

definition exampleRowsHtml :: jsstring where
  "exampleRowsHtml = lit ''<tr><td></td></tr><tr><td>a</td></tr><tr><td> </td></tr><tr></tr>''"

definition exampleRows :: jsstring where
  "exampleRows = lit ''<tbody>'' @ exampleRowsHtml @ lit ''</tbody>''"

lemma exampleRows_tbody: "search tbodyRe exampleRows = Some (exampleRowsHtml, [])"
  by (simp add: exampleRows_def exampleRowsHtml_def ev)

lemma exampleRows_aoa:
  "aoa (parseRows (buildStyleMap exampleRows) exampleRowsHtml) = [[[]], [[97]], [[]], []]"
  by (simp add: exampleRows_def exampleRowsHtml_def ev)

lemma exampleRows_document:
  "buildDocument exampleRows
     = Inr \<lparr>formats = [], borders = [], version = 1, data = [[[]], [[97]]]\<rparr>"
  by (simp add: exampleRows_def exampleRowsHtml_def ev)

theorem trimmedData_drops_trailing_empty_rows_witness:
  "trimmedData [[[]], [[97], []], [[], []], []] = [[[]], [[97], []]]
   \<and> (\<exists>d. buildDocument exampleRows = Inr d
         \<and> data d = [[[]], [[97]]]
         \<and> data d = trimmedData [[[]], [[97]], [[]], []])"
proof -
  from trimmedData_drops_trailing_empty_rows [of "[[[]], [[97], []], [[], []], []]" "[]"]
  have t: "trimmedData [[[]], [[97], []], [[], []], []] = [[[]], [[97], []]]"
    by (simp add: emptyRow_def)
  from trimmedData_drops_trailing_empty_rows [of "[]" exampleRows]
  have "data \<lparr>formats = [], borders = [], version = 1, data = [[[]], [[97]]]\<rparr>
      = trimmedData [[[]], [[97]], [[]], []]"
    by (simp add: exampleRows_document exampleRows_tbody exampleRows_aoa)
  then show ?thesis
    using t by (simp add: exampleRows_document)
qed

section \<open>The keys of \<open>formats\<close> and \<open>borders\<close>\<close>

text \<open>
  \<open>cellsWithin obj rows\<close>: every key of \<open>obj\<close> is the index of a row of \<open>rows\<close>, and every
  key of the object stored there is the index of a cell of that row. \<open>cellsBelow obj rows n\<close>
  is the same while the row after \<open>rows\<close> is being read and has \<open>n\<close> cells so far.
\<close>

definition cellsWithin :: "'a jsobj jsobj \<Rightarrow> jsstring list list \<Rightarrow> bool" where
  "cellsWithin obj rows \<longleftrightarrow>
     (\<forall>p\<in>set obj. fst p < length rows \<and> (\<forall>q\<in>set (snd p). fst q < length (rows ! fst p)))"

definition cellsBelow :: "'a jsobj jsobj \<Rightarrow> jsstring list list \<Rightarrow> nat \<Rightarrow> bool" where
  "cellsBelow obj rows n \<longleftrightarrow>
     (\<forall>p\<in>set obj.
        (fst p < length rows \<and> (\<forall>q\<in>set (snd p). fst q < length (rows ! fst p)))
        \<or> (fst p = length rows \<and> (\<forall>q\<in>set (snd p). fst q < n)))"

lemma setProp_set: "p \<in> set (setProp k v obj) \<Longrightarrow> p = (k, v) \<or> p \<in> set obj"
  by (induction obj) (auto split: if_splits)

lemma cellsBelow_mono: "cellsBelow obj rows n \<Longrightarrow> n \<le> m \<Longrightarrow> cellsBelow obj rows m"
  unfolding cellsBelow_def by (meson less_le_trans)

lemma cellsBelow_setCell:
  assumes "cellsBelow obj rows n" and "c < n"
  shows "cellsBelow (setCell (length rows) c v obj) rows n"
proof -
  have inner: "\<forall>q\<in>set (setProp c v cols). fst q < n"
    if "\<forall>q\<in>set cols. fst q < n" for cols :: "'a jsobj"
    using that assms(2) by (auto dest: setProp_set)
  show ?thesis
  proof (cases "map_of obj (length rows)")
    case None
    then show ?thesis
      using assms inner [of "[]"]
      by (auto simp: cellsBelow_def setCell_def dest!: setProp_set)
  next
    case (Some cols)
    then have "(length rows, cols) \<in> set obj" by (rule map_of_SomeD)
    with assms(1) have "\<forall>q\<in>set cols. fst q < n" by (fastforce simp: cellsBelow_def)
    then show ?thesis
      using assms(1) Some inner [of cols]
      by (auto simp: cellsBelow_def setCell_def dest!: setProp_set)
  qed
qed

lemma processCell_keeps:
  assumes "cellsBelow (formats st) (aoa st) n" and "cellsBelow (borders st) (aoa st) n"
    and "c < n" and "rowIdx = length (aoa st)"
  shows "aoa (processCell sm rowIdx c attrs st) = aoa st
     \<and> cellsBelow (formats (processCell sm rowIdx c attrs st)) (aoa st) n
     \<and> cellsBelow (borders (processCell sm rowIdx c attrs st)) (aoa st) n"
  using assms
  by (simp add: processCell_def styleCell_def recordFormat_def recordBorders_def
      cellsBelow_setCell)

lemma cellLoop_keeps:
  "cellLoop sm rowIdx colIdx cells rowData st = (rd, st') \<Longrightarrow>
   colIdx = length rowData \<Longrightarrow> rowIdx = length (aoa st) \<Longrightarrow>
   cellsBelow (formats st) (aoa st) colIdx \<Longrightarrow> cellsBelow (borders st) (aoa st) colIdx \<Longrightarrow>
   aoa st' = aoa st \<and> cellsBelow (formats st') (aoa st) (length rd)
     \<and> cellsBelow (borders st') (aoa st) (length rd)"
proof (induction cells arbitrary: colIdx rowData st)
  case Nil
  then show ?case by simp
next
  case (Cons cellM cells)
  let ?st = "processCell sm rowIdx colIdx (fst cellM) st"
  have k: "aoa ?st = aoa st \<and> cellsBelow (formats ?st) (aoa st) (colIdx + 1)
      \<and> cellsBelow (borders ?st) (aoa st) (colIdx + 1)"
    using Cons.prems
    by (intro processCell_keeps) (auto intro: cellsBelow_mono)
  from Cons.prems(1)
  have "cellLoop sm rowIdx (colIdx + 1) cells (rowData @ [stripTags (snd cellM)]) ?st = (rd, st')"
    by simp
  from Cons.IH [OF this] k Cons.prems show ?case by simp
qed

lemma cellsWithin_Below: "cellsWithin obj rows \<Longrightarrow> cellsBelow obj rows 0"
  by (auto simp: cellsWithin_def cellsBelow_def)

lemma cellsBelow_push:
  assumes "cellsBelow obj rows (length rd)"
  shows "cellsWithin obj (rows @ [rd])"
  unfolding cellsWithin_def
proof (intro ballI)
  fix p assume "p \<in> set obj"
  with assms have
    "(fst p < length rows \<and> (\<forall>q\<in>set (snd p). fst q < length (rows ! fst p)))
     \<or> (fst p = length rows \<and> (\<forall>q\<in>set (snd p). fst q < length rd))"
    by (simp add: cellsBelow_def)
  then show "fst p < length (rows @ [rd])
     \<and> (\<forall>q\<in>set (snd p). fst q < length ((rows @ [rd]) ! fst p))"
    by (auto simp: nth_append)
qed

lemma rowLoop_keeps:
  "cellsWithin (formats st) (aoa st) \<Longrightarrow> cellsWithin (borders st) (aoa st) \<Longrightarrow>
   cellsWithin (formats (rowLoop sm rows st)) (aoa (rowLoop sm rows st))
   \<and> cellsWithin (borders (rowLoop sm rows st)) (aoa (rowLoop sm rows st))"
proof (induction rows arbitrary: st)
  case Nil
  then show ?case by simp
next
  case (Cons rowM rows)
  obtain rd st' where c:
    "cellLoop sm (length (aoa st)) 0 (allMatches cellRe (snd rowM)) [] st = (rd, st')"
    by (cases "cellLoop sm (length (aoa st)) 0 (allMatches cellRe (snd rowM)) [] st")
  from cellLoop_keeps [OF c] Cons.prems
  have "aoa st' = aoa st \<and> cellsBelow (formats st') (aoa st) (length rd)
     \<and> cellsBelow (borders st') (aoa st) (length rd)"
    by (simp add: cellsWithin_Below)
  then have "cellsWithin (formats (pushRow (rd, st'))) (aoa (pushRow (rd, st')))
     \<and> cellsWithin (borders (pushRow (rd, st'))) (aoa (pushRow (rd, st')))"
    by (simp add: pushRow_def cellsBelow_push)
  with Cons.IH [of "pushRow (rd, st')"] c show ?case by simp
qed

lemma parseRows_within:
  "cellsWithin (formats (parseRows sm tbodyHtml)) (aoa (parseRows sm tbodyHtml))
   \<and> cellsWithin (borders (parseRows sm tbodyHtml)) (aoa (parseRows sm tbodyHtml))"
  unfolding parseRows_def
  by (rule rowLoop_keeps) (simp_all add: initState_def cellsWithin_def)

text \<open>
  C1 (as amended). The keys of \<open>formats\<close> and \<open>borders\<close> in the emitted document are
  indices of rows that were collected, and the keys below them are indices of cells of those
  rows. The emitted rows are a prefix of the collected rows; the entries of a row that the
  trim removes stay in the two objects.
\<close>

theorem formats_borders_within_collected_rows:
  assumes "search tbodyRe src = Some (tbodyHtml, rest)"
    and "st = parseRows (buildStyleMap src) tbodyHtml"
  shows "\<exists>d. buildDocument src = Inr d
     \<and> formats d = formats st \<and> borders d = borders st
     \<and> data d = take (length (data d)) (aoa st)
     \<and> (\<forall>p\<in>set (formats d). fst p < length (aoa st)
           \<and> (\<forall>q\<in>set (snd p). fst q < length (aoa st ! fst p)))
     \<and> (\<forall>p\<in>set (borders d). fst p < length (aoa st)
           \<and> (\<forall>q\<in>set (snd p). fst q < length (aoa st ! fst p)))"
proof -
  have d: "buildDocument src = Inr (makeDocument st)"
    using assms by (simp add: buildDocument_def)
  have "take (length (take n xs)) xs = take n xs" for n and xs :: "jsstring list list"
    by (simp add: min_def)
  then have "data (makeDocument st) = take (length (data (makeDocument st))) (aoa st)"
    unfolding makeDocument_def trimmedData_def by simp
  moreover have "cellsWithin (formats st) (aoa st) \<and> cellsWithin (borders st) (aoa st)"
    unfolding assms(2) by (rule parseRows_within)
  ultimately show ?thesis
    using d by (simp add: makeDocument_def cellsWithin_def)
qed

text \<open>
  A document of two rows whose cells have a class with a style; the cell of the second row
  has no text.
\<close>

definition exampleStyledHtml :: jsstring where
  \<open>exampleStyledHtml = lit ''<tr><td class="s1">x</td></tr><tr><td class="s1"></td></tr>''\<close>

definition exampleStyled :: jsstring where
  "exampleStyled =
     lit ''<style>.waffle .s1{font-weight:bold;border-top:1px solid}</style><tbody>''
     @ exampleStyledHtml @ lit ''</tbody>''"

definition exampleStyledDocument :: document where
  "exampleStyledDocument =
     \<lparr>formats = [(0, [(0, emptyFmt\<lparr>fmt_bold := Some True\<rparr>)]),
                 (1, [(0, emptyFmt\<lparr>fmt_bold := Some True\<rparr>)])],
      borders = [(0, [(0, \<lparr>b_top = True, b_bottom = False, b_left = False, b_right = False\<rparr>)]),
                 (1, [(0, \<lparr>b_top = True, b_bottom = False, b_left = False, b_right = False\<rparr>)])],
      version = 1, data = [[[120]]]\<rparr>"

lemma exampleStyled_tbody: "search tbodyRe exampleStyled = Some (exampleStyledHtml, [])"
  by (simp add: exampleStyled_def exampleStyledHtml_def ev)

lemma exampleStyled_document: "buildDocument exampleStyled = Inr exampleStyledDocument"
  by (simp add: exampleStyled_def exampleStyledHtml_def exampleStyledDocument_def ev)

theorem formats_borders_within_collected_rows_witness:
  "\<exists>d. buildDocument exampleStyled = Inr d
     \<and> map fst (formats d) = [0, 1] \<and> map fst (borders d) = [0, 1] \<and> data d = [[[120]]]"
proof -
  from formats_borders_within_collected_rows [OF exampleStyled_tbody refl]
  obtain d where d: "buildDocument exampleStyled = Inr d" by blast
  then have "d = exampleStyledDocument" by (simp add: exampleStyled_document)
  then have "map fst (formats d) = [0, 1] \<and> map fst (borders d) = [0, 1] \<and> data d = [[[120]]]"
    by (simp add: exampleStyledDocument_def)
  with d show ?thesis by (intro exI [of _ d] conjI) simp_all
qed

text \<open>
  C1 as stated fails: the second row of \<open>exampleStyled\<close> has an empty text and a class with
  a style, so the trim removes the row and the entries with key \<open>1\<close> stay, while the emitted
  document has one row.
\<close>

theorem formats_keep_trimmed_rows:
  "buildDocument exampleStyled = Inr exampleStyledDocument
   \<and> map fst (formats exampleStyledDocument) = [0, 1]
   \<and> map fst (borders exampleStyledDocument) = [0, 1]
   \<and> length (data exampleStyledDocument) = 1"
  by (simp add: exampleStyled_document) (simp add: exampleStyledDocument_def)

section \<open>The table body\<close>

text \<open>
  Two texts are the same for a regular expression with the flag \<open>i\<close> when they agree after
  \<open>canon\<close>. \<open>literalTbodyRegion\<close> is what the expression of the source looks for, letter by
  letter: the start marker \<open><tbody>\<close> as it is written there, with nothing between the name
  and the closing bracket, and somewhere after it the end marker, in any case of letters.
\<close>

definition sameCI :: "jsstring \<Rightarrow> jsstring \<Rightarrow> bool" where
  "sameCI a b \<longleftrightarrow> map canon a = map canon b"








lemma startsWithCI_Some:
  "startsWithCI p s = Some r \<longleftrightarrow> (\<exists>m. s = m @ r \<and> sameCI m p)"
proof (induction p s rule: startsWithCI.induct)
  case (1 s)
  show ?case by (auto simp: sameCI_def)
next
  case (2 p ps)
  show ?case by (auto simp: sameCI_def)
next
  case (3 p ps c cs)
  show ?case
  proof (cases "canon p = canon c")
    case True
    have "(\<exists>m. c # cs = m @ r \<and> sameCI m (p # ps)) \<longleftrightarrow> (\<exists>m. cs = m @ r \<and> sameCI m ps)"
    proof
      assume "\<exists>m. c # cs = m @ r \<and> sameCI m (p # ps)"
      then obtain m where m: "c # cs = m @ r" "sameCI m (p # ps)" by blast
      then obtain m' where "m = c # m'" by (cases m) (auto simp: sameCI_def)
      with m show "\<exists>m. cs = m @ r \<and> sameCI m ps" by (auto simp: sameCI_def)
    next
      assume "\<exists>m. cs = m @ r \<and> sameCI m ps"
      then obtain m where "cs = m @ r" "sameCI m ps" by blast
      with True have "c # cs = (c # m) @ r \<and> sameCI (c # m) (p # ps)"
        by (simp add: sameCI_def)
      then show "\<exists>m. c # cs = m @ r \<and> sameCI m (p # ps)" by blast
    qed
    with True 3 show ?thesis by simp
  next
    case False
    have "\<not> (\<exists>m. c # cs = m @ r \<and> sameCI m (p # ps))"
    proof
      assume "\<exists>m. c # cs = m @ r \<and> sameCI m (p # ps)"
      then obtain m where m: "c # cs = m @ r" "sameCI m (p # ps)" by blast
      then obtain m' where "m = c # m'" by (cases m) (auto simp: sameCI_def)
      with m False show False by (auto simp: sameCI_def)
    qed
    with False show ?thesis by simp
  qed
qed





















































section \<open>The class of a cell\<close>




















section \<open>The format of a cell\<close>

text \<open>
  \<open>goodStyle s\<close>: what holds of every style record that \<open>parseCssClass\<close> builds. \<open>bold\<close>
  and \<open>italic\<close> are only ever set to true, a colour and an alignment are never the empty
  string, and a font size is never \<open>0\<close> or NaN. \<open>goodMap\<close> says so of every record of a map.
  \<open>cellEntry obj rowIdx colIdx\<close> is \<open>obj[rowIdx][colIdx]\<close>, if there is one.
\<close>

definition goodStyle :: "style \<Rightarrow> bool" where
  "goodStyle s \<longleftrightarrow>
     (bold s = None \<or> bold s = Some True) \<and> (italic s = None \<or> italic s = Some True)
     \<and> color s \<noteq> Some [] \<and> bgColor s \<noteq> Some [] \<and> align s \<noteq> Some []
     \<and> (case fontSize s of None \<Rightarrow> True | Some n \<Rightarrow> truthyNum n)"

definition goodMap :: "styleMap \<Rightarrow> bool" where
  "goodMap sm \<longleftrightarrow>
     (\<forall>k st. own sm k = Some st \<longrightarrow> goodStyle st)
     \<and> (case proto sm of None \<Rightarrow> True | Some st \<Rightarrow> goodStyle st)"

definition cellEntry :: "'a jsobj jsobj \<Rightarrow> nat \<Rightarrow> nat \<Rightarrow> 'a option" where
  "cellEntry obj rowIdx colIdx =
     (case map_of obj rowIdx of None \<Rightarrow> None | Some cols \<Rightarrow> map_of cols colIdx)"

lemma applyDecl_good: "goodStyle result \<Longrightarrow> goodStyle (applyDecl result key val vl)"
  by (auto simp: applyDecl_def goodStyle_def lit_def split: option.splits)

lemma parseDecl_good: "goodStyle result \<Longrightarrow> goodStyle (parseDecl result raw)"
  by (auto simp: parseDecl_def applyDecl_good split: option.splits)

lemma parseCssClass_good: "goodStyle (parseCssClass decls)"
proof -
  have "goodStyle (foldl parseDecl s raws)" if "goodStyle s" for s raws
    using that by (induction raws arbitrary: s) (auto simp: parseDecl_good)
  moreover have "goodStyle emptyStyle" by (simp add: goodStyle_def emptyStyle_def)
  ultimately show ?thesis unfolding parseCssClass_def by blast
qed

lemma addRule_good: "goodMap sm \<Longrightarrow> goodMap (addRule sm cm)"
  using parseCssClass_good [of "snd cm"]
  by (auto simp: goodMap_def addRule_def setClass_def split: option.splits)

lemma addBlock_good: "goodMap sm \<Longrightarrow> goodMap (addBlock sm block)"
proof -
  have "goodMap (foldl addRule s cms)" if "goodMap s" for s cms
    using that by (induction cms arbitrary: s) (auto simp: addRule_good)
  then show "goodMap sm \<Longrightarrow> goodMap (addBlock sm block)" unfolding addBlock_def by blast
qed

lemma buildStyleMap_good: "goodMap (buildStyleMap src)"
proof -
  have "goodMap (foldl addBlock s blocks)" if "goodMap s" for s blocks
    using that by (induction blocks arbitrary: s) (auto simp: addBlock_good)
  moreover have "goodMap emptyMap" by (simp add: goodMap_def emptyMap_def)
  ultimately show ?thesis unfolding buildStyleMap_def by blast
qed

lemma styleLookup_Obj_good:
  assumes "goodMap sm" and "styleLookup sm cls = Obj s"
  shows "goodStyle s"
proof -
  have nf: "fromObjectPrototype cls \<noteq> Obj s"
    by (simp add: fromObjectPrototype_def)
  have ng: "getField st cls \<noteq> Some (Obj s)" for st
    by (auto simp: getField_def split: if_splits)
  from assms(2) nf ng have "own sm cls = Some s \<or> proto sm = Some s"
    by (auto simp: styleLookup_def split: if_splits option.splits)
  with assms(1) show ?thesis by (auto simp: goodMap_def split: option.splits)
qed

lemma map_of_setProp: "map_of (setProp k v obj) k = Some v"
  by (induction obj) auto

lemma cellEntry_setCell: "cellEntry (setCell rowIdx colIdx v obj) rowIdx colIdx = Some v"
  by (simp add: cellEntry_def setCell_def map_of_setProp split: option.splits)

lemma buildFmt_good:
  assumes "goodStyle s"
  shows "fmt_bold (buildFmt s) = bold s \<and> fmt_italic (buildFmt s) = italic s
     \<and> fmt_fontSize (buildFmt s) = fontSize s \<and> fmt_align (buildFmt s) = align s
     \<and> fmt_color (buildFmt s) = (if color s = Some (lit ''#000000'') then None else color s)
     \<and> fmt_bgColor (buildFmt s) = (if bgColor s = Some (lit ''#ffffff'') then None else bgColor s)
     \<and> fmt_fontFamily (buildFmt s) = (if fontFamily s = Some [] then None else fontFamily s)"
  using assms
  by (auto simp: buildFmt_def goodStyle_def keepTrue_def isTrue_def keepStr_def keepStrBut_def
      keepNum_def split: option.splits)

text \<open>
  A document with two classes: the first sets every property, with black as the colour; the
  second sets a colour that is black written with three digits, and white as the background.
\<close>

definition exampleFormats :: jsstring where
  \<open>exampleFormats = lit
     ''<style>.waffle .s1{color:#000000;background-color:#FFFF00;font-size:12pt;font-family:docs-Foo, Arial;text-align:center;font-weight:bold;font-style:italic}.waffle .s2{color:#000;background-color:#ffffff}</style><tbody><tr><td class="s1">a</td><td class="s2">b</td></tr></tbody>''\<close>

definition exampleS1Attrs :: jsstring where
  \<open>exampleS1Attrs = lit '' class="s1"''\<close>

definition exampleS1Style :: style where
  "exampleS1Style =
     \<lparr>bold = Some True, italic = Some True, color = Some (lit ''#000000''),
      bgColor = Some (lit ''#ffff00''), align = Some (lit ''center''),
      fontSize = Some (Num 16), fontFamily = Some (lit ''Arial''), borderTop = None,
      borderBottom = None, borderLeft = None, borderRight = None\<rparr>"

definition exampleS1Fmt :: cellFormat where
  "exampleS1Fmt =
     \<lparr>fmt_bold = Some True, fmt_italic = Some True, fmt_color = None,
      fmt_bgColor = Some (lit ''#ffff00''), fmt_fontSize = Some (Num 16),
      fmt_fontFamily = Some (lit ''Arial''), fmt_align = Some (lit ''center'')\<rparr>"

lemma exampleFormats_lookup:
  "styleLookup (buildStyleMap exampleFormats) (cellClass exampleS1Attrs) = Obj exampleS1Style"
  by (simp add: exampleFormats_def exampleS1Attrs_def exampleS1Style_def ev)

lemma exampleS1_buildFmt: "buildFmt exampleS1Style = exampleS1Fmt"
  by (simp add: exampleS1Style_def exampleS1Fmt_def ev)

lemma exampleFormats_document:
  "buildDocument exampleFormats
     = Inr \<lparr>formats = [(0, [(0, exampleS1Fmt), (1, emptyFmt\<lparr>fmt_color := Some (lit ''#000'')\<rparr>)])],
            borders = [], version = 1, data = [[[97], [98]]]\<rparr>"
  by (simp add: exampleFormats_def exampleS1Fmt_def ev)

text \<open>A document whose class sets the font family to the empty string.\<close>

definition exampleEmptyFamily :: jsstring where
  \<open>exampleEmptyFamily = lit
     ''<style>.waffle .s1{font-family:}</style><tbody><tr><td class="s1">x</td></tr></tbody>''\<close>

lemma exampleEmptyFamily_lookup:
  "styleLookup (buildStyleMap exampleEmptyFamily) (cellClass exampleS1Attrs)
     = Obj (emptyStyle\<lparr>fontFamily := Some []\<rparr>)"
  by (simp add: exampleEmptyFamily_def exampleS1Attrs_def ev)

lemma exampleEmptyFamily_document:
  "buildDocument exampleEmptyFamily
     = Inr \<lparr>formats = [], borders = [], version = 1, data = [[[120]]]\<rparr>"
  by (simp add: exampleEmptyFamily_def ev)

text \<open>
  C4 (as amended). For a cell whose class resolves to a style record, the format has
  \<open>bold\<close>, \<open>italic\<close>, \<open>fontSize\<close> and \<open>align\<close> whenever the record has them, the colour
  unless it is absent or \<open>#000000\<close>, the background unless it is absent or \<open>#ffffff\<close>, and
  the font family unless it is absent or the empty string. A format with no property gives
  no entry in \<open>formats\<close>; any other format is the entry of the cell.
\<close>

theorem cellFormat_inclusion:
  assumes "styleLookup (buildStyleMap src) (cellClass attrs) = Obj s"
  shows "fmt_bold (buildFmt s) = bold s \<and> fmt_italic (buildFmt s) = italic s
     \<and> fmt_fontSize (buildFmt s) = fontSize s \<and> fmt_align (buildFmt s) = align s
     \<and> fmt_color (buildFmt s) = (if color s = Some (lit ''#000000'') then None else color s)
     \<and> fmt_bgColor (buildFmt s) = (if bgColor s = Some (lit ''#ffffff'') then None else bgColor s)
     \<and> fmt_fontFamily (buildFmt s) = (if fontFamily s = Some [] then None else fontFamily s)
     \<and> formats (processCell (buildStyleMap src) rowIdx colIdx attrs st)
         = (if buildFmt s = emptyFmt then formats st
            else setCell rowIdx colIdx (buildFmt s) (formats st))
     \<and> (if buildFmt s = emptyFmt
         then cellEntry (formats (processCell (buildStyleMap src) rowIdx colIdx attrs st))
                rowIdx colIdx = cellEntry (formats st) rowIdx colIdx
         else cellEntry (formats (processCell (buildStyleMap src) rowIdx colIdx attrs st))
                rowIdx colIdx = Some (buildFmt s))"
proof -
  from styleLookup_Obj_good [OF buildStyleMap_good assms] have "goodStyle s" .
  note f = buildFmt_good [OF this]
  have p: "formats (processCell (buildStyleMap src) rowIdx colIdx attrs st)
         = (if buildFmt s = emptyFmt then formats st
            else setCell rowIdx colIdx (buildFmt s) (formats st))"
    using assms
    by (simp add: processCell_def styleCell_def recordFormat_def recordBorders_def)
  from f p show ?thesis by (simp add: cellEntry_setCell)
qed

theorem cellFormat_inclusion_witness:
  "styleLookup (buildStyleMap exampleFormats) (cellClass exampleS1Attrs) = Obj exampleS1Style
   \<and> buildFmt exampleS1Style = exampleS1Fmt
   \<and> cellEntry (formats (processCell (buildStyleMap exampleFormats) 0 0 exampleS1Attrs
        initState)) 0 0 = Some exampleS1Fmt
   \<and> buildDocument exampleFormats
     = Inr \<lparr>formats = [(0, [(0, exampleS1Fmt), (1, emptyFmt\<lparr>fmt_color := Some (lit ''#000'')\<rparr>)])],
            borders = [], version = 1, data = [[[97], [98]]]\<rparr>"
proof -
  have ne: "exampleS1Fmt \<noteq> emptyFmt"
    by (simp add: exampleS1Fmt_def emptyFmt_def)
  from cellFormat_inclusion [OF exampleFormats_lookup, of 0 0 initState]
  have "cellEntry (formats (processCell (buildStyleMap exampleFormats) 0 0 exampleS1Attrs
        initState)) 0 0 = Some exampleS1Fmt"
    by (simp add: exampleS1_buildFmt ne cellEntry_setCell)
  then show ?thesis
    by (simp add: exampleFormats_lookup exampleS1_buildFmt exampleFormats_document)
qed

text \<open>
  C4 as stated fails for the font family: the class of \<open>exampleEmptyFamily\<close> resolves to a
  style record that has a font family, the empty string, and the format of the cell does not
  have it; the cell gets no entry.
\<close>

theorem empty_fontFamily_is_not_included:
  "styleLookup (buildStyleMap exampleEmptyFamily) (cellClass exampleS1Attrs)
     = Obj (emptyStyle\<lparr>fontFamily := Some []\<rparr>)
   \<and> fontFamily (emptyStyle\<lparr>fontFamily := Some []\<rparr>) = Some []
   \<and> fmt_fontFamily (buildFmt (emptyStyle\<lparr>fontFamily := Some []\<rparr>)) = None
   \<and> buildDocument exampleEmptyFamily
       = Inr \<lparr>formats = [], borders = [], version = 1, data = [[[120]]]\<rparr>"
  by (simp add: exampleEmptyFamily_lookup exampleEmptyFamily_document)
     (simp add: buildFmt_def keepStr_def emptyStyle_def)

section \<open>Sizes\<close>

lemma run_then_rest:
  assumes "list_all P g" and "u = [] \<or> \<not> P (hd u)"
  shows "takeWhile P (g @ u) = g \<and> dropWhile P (g @ u) = u"
proof -
  from assms(1) have a: "\<forall>x\<in>set g. P x" by (simp add: list_all_iff)
  from assms(2) have "takeWhile P u = []" and "dropWhile P u = u"
    by (cases u; simp)+
  with a show ?thesis by (simp add: takeWhile_append2 dropWhile_append2)
qed

lemma sameCI_pt_px:
  assumes "sameCI u (lit ''pt'') \<or> sameCI u (lit ''px'')"
  shows "u \<noteq> [] \<and> \<not> isDigitOrDot (hd u)"
proof -
  from assms obtain a b where u: "u = [a, b]" and "canon a = 80"
    by (auto simp: sameCI_def lit_def canon_def isLower_def)
  then have "a = 80 \<or> a = 112"
    by (auto simp: canon_def isLower_def split: if_splits)
  with u show ?thesis by (auto simp: isDigitOrDot_def isDigit_def)
qed

lemma sameCI_px_not_pt: "sameCI u (lit ''px'') \<Longrightarrow> \<not> sameCI u (lit ''pt'')"
  by (auto simp: sameCI_def lit_def canon_def isLower_def)

lemma matchSize_Some:
  assumes "unit = lit ''pt'' \<or> unit = lit ''px''"
  shows "matchSize unit val = Some g \<longleftrightarrow>
     g \<noteq> [] \<and> list_all isDigitOrDot g \<and> (\<exists>u. val = g @ u \<and> sameCI u unit)"
proof
  assume m: "matchSize unit val = Some g"
  then have g: "g = takeWhile isDigitOrDot val" "g \<noteq> []"
    and s: "startsWithCI unit (dropWhile isDigitOrDot val) = Some []"
    by (auto simp: matchSize_def split: if_splits)
  from s obtain u where "dropWhile isDigitOrDot val = u" "sameCI u unit"
    by (auto simp: startsWithCI_Some)
  with g have "val = g @ u" by (metis takeWhile_dropWhile_id)
  moreover have "list_all isDigitOrDot g"
    unfolding g(1) by (auto simp: list_all_iff dest: set_takeWhileD)
  ultimately show "g \<noteq> [] \<and> list_all isDigitOrDot g \<and> (\<exists>u. val = g @ u \<and> sameCI u unit)"
    using g(2) \<open>sameCI u unit\<close> by blast
next
  assume "g \<noteq> [] \<and> list_all isDigitOrDot g \<and> (\<exists>u. val = g @ u \<and> sameCI u unit)"
  then obtain u where g: "g \<noteq> []" "list_all isDigitOrDot g" and u: "val = g @ u" "sameCI u unit"
    by blast
  from u(2) assms have "sameCI u (lit ''pt'') \<or> sameCI u (lit ''px'')" by blast
  then have "u \<noteq> [] \<and> \<not> isDigitOrDot (hd u)" by (rule sameCI_pt_px)
  with run_then_rest [OF g(2), of u]
  have t: "takeWhile isDigitOrDot val = g" "dropWhile isDigitOrDot val = u"
    by (simp_all add: u(1))
  have "startsWithCI unit u = Some []"
    using u(2) by (simp add: startsWithCI_Some)
  with t g(1) show "matchSize unit val = Some g" by (simp add: matchSize_def)
qed

lemma matchSize_None_px:
  assumes "matchSize (lit ''px'') val = Some g"
  shows "matchSize (lit ''pt'') val = None"
proof (cases "matchSize (lit ''pt'') val")
  case None
  then show ?thesis .
next
  case (Some g')
  then have s1: "startsWithCI (lit ''pt'') (dropWhile isDigitOrDot val) = Some []"
    by (auto simp: matchSize_def split: if_splits)
  from assms have s2: "startsWithCI (lit ''px'') (dropWhile isDigitOrDot val) = Some []"
    by (auto simp: matchSize_def split: if_splits)
  from s1 s2 have "sameCI (dropWhile isDigitOrDot val) (lit ''pt'')"
    "sameCI (dropWhile isDigitOrDot val) (lit ''px'')"
    by (auto simp: startsWithCI_Some)
  with sameCI_px_not_pt show ?thesis by blast
qed

lemma parsePtPx_pt:
  assumes "g \<noteq> []" "list_all isDigitOrDot g" "sameCI u (lit ''pt'')"
  shows "parsePtPx (g @ u) = Some (Math_round (jsMul (parseFloat g) c1333))"
proof -
  have "matchSize (lit ''pt'') (g @ u) = Some g"
    using assms by (subst matchSize_Some) auto
  then show ?thesis by (simp add: parsePtPx_def)
qed

lemma parsePtPx_px:
  assumes "g \<noteq> []" "list_all isDigitOrDot g" "sameCI u (lit ''px'')"
  shows "parsePtPx (g @ u) = Some (Math_round (parseFloat g))"
proof -
  have m: "matchSize (lit ''px'') (g @ u) = Some g"
    using assms by (subst matchSize_Some) auto
  from matchSize_None_px [OF m] m show ?thesis by (simp add: parsePtPx_def)
qed

lemma parsePtPx_None:
  "parsePtPx val = None \<longleftrightarrow>
   \<not> (\<exists>g u. val = g @ u \<and> g \<noteq> [] \<and> list_all isDigitOrDot g
         \<and> (sameCI u (lit ''pt'') \<or> sameCI u (lit ''px'')))"
proof
  assume n: "parsePtPx val = None"
  show "\<not> (\<exists>g u. val = g @ u \<and> g \<noteq> [] \<and> list_all isDigitOrDot g
         \<and> (sameCI u (lit ''pt'') \<or> sameCI u (lit ''px'')))"
  proof
    assume "\<exists>g u. val = g @ u \<and> g \<noteq> [] \<and> list_all isDigitOrDot g
         \<and> (sameCI u (lit ''pt'') \<or> sameCI u (lit ''px''))"
    then obtain g u where "val = g @ u" "g \<noteq> []" "list_all isDigitOrDot g"
      "sameCI u (lit ''pt'') \<or> sameCI u (lit ''px'')" by blast
    then have "parsePtPx val \<noteq> None"
      using parsePtPx_pt [of g u] parsePtPx_px [of g u] by auto
    with n show False by simp
  qed
next
  assume a: "\<not> (\<exists>g u. val = g @ u \<and> g \<noteq> [] \<and> list_all isDigitOrDot g
         \<and> (sameCI u (lit ''pt'') \<or> sameCI u (lit ''px'')))"
  have "matchSize (lit ''pt'') val = None"
  proof (cases "matchSize (lit ''pt'') val")
    case (Some g)
    then have "g \<noteq> [] \<and> list_all isDigitOrDot g \<and> (\<exists>u. val = g @ u \<and> sameCI u (lit ''pt''))"
      by (subst (asm) matchSize_Some) auto
    with a show ?thesis by blast
  qed simp
  moreover have "matchSize (lit ''px'') val = None"
  proof (cases "matchSize (lit ''px'') val")
    case (Some g)
    then have "g \<noteq> [] \<and> list_all isDigitOrDot g \<and> (\<exists>u. val = g @ u \<and> sameCI u (lit ''px''))"
      by (subst (asm) matchSize_Some) auto
    with a show ?thesis by blast
  qed simp
  ultimately show "parsePtPx val = None" by (simp add: parsePtPx_def)
qed

lemma not_digit_dot: "\<not> isDigit 46"
  by (simp add: isDigit_def)

lemma takeWhile_all: "list_all P xs \<Longrightarrow> takeWhile P xs = xs"
  by (simp add: list_all_iff)

lemma dropWhile_all: "list_all P xs \<Longrightarrow> dropWhile P xs = []"
  by (simp add: list_all_iff)

lemma parseFloat_integer:
  assumes "list_all isDigit ip" "ip \<noteq> []"
  shows "parseFloat ip = toDouble (decimalValue ip [])"
  using assms
  by (simp add: parseFloat_def fracDigits_def takeWhile_all dropWhile_all)

lemma parseFloat_decimal:
  assumes "list_all isDigit ip" "list_all isDigit fp" "ip @ fp \<noteq> []"
  shows "parseFloat (ip @ 46 # fp) = toDouble (decimalValue ip fp)"
proof -
  from run_then_rest [OF assms(1), of "46 # fp"] not_digit_dot
  have t: "takeWhile isDigit (ip @ 46 # fp) = ip" "dropWhile isDigit (ip @ 46 # fp) = 46 # fp"
    by simp_all
  have "fracDigits (ip @ 46 # fp) = fp"
    using assms(2) by (simp add: fracDigits_def t takeWhile_all)
  with t assms(3) show ?thesis by (auto simp: parseFloat_def)
qed

text \<open>
  A decimal number, as the amended claim speaks of it: digits, or digits, a dot and digits,
  with a digit somewhere. \<open>isDecimal d ip fp\<close> says that the text \<open>d\<close> is one, with the digits
  \<open>ip\<close> before the dot and \<open>fp\<close> after it. \<open>decimalPrefix g d ip fp\<close> says that \<open>d\<close> is such a
  number at the start of \<open>g\<close>, and \<open>longestDecimalPrefix g d ip fp\<close> that no longer one starts
  \<open>g\<close>.
\<close>

definition isDecimal :: "jsstring \<Rightarrow> jsstring \<Rightarrow> jsstring \<Rightarrow> bool" where
  "isDecimal d ip fp \<longleftrightarrow>
     list_all isDigit ip \<and> list_all isDigit fp \<and> ip @ fp \<noteq> []
     \<and> ((d = ip \<and> fp = []) \<or> d = ip @ 46 # fp)"

definition decimalPrefix :: "jsstring \<Rightarrow> jsstring \<Rightarrow> jsstring \<Rightarrow> jsstring \<Rightarrow> bool" where
  "decimalPrefix g d ip fp \<longleftrightarrow> (\<exists>rest. g = d @ rest) \<and> isDecimal d ip fp"

definition longestDecimalPrefix ::
  "jsstring \<Rightarrow> jsstring \<Rightarrow> jsstring \<Rightarrow> jsstring \<Rightarrow> bool" where
  "longestDecimalPrefix g d ip fp \<longleftrightarrow>
     decimalPrefix g d ip fp
     \<and> (\<forall>d' ip' fp'. decimalPrefix g d' ip' fp' \<longrightarrow> length d' \<le> length d)"

text \<open>The prefix that the model of \<open>parseFloat\<close> reads.\<close>

definition readPrefix :: "jsstring \<Rightarrow> jsstring" where
  "readPrefix g =
     (case dropWhile isDigit g of
        [] \<Rightarrow> takeWhile isDigit g
      | c # r \<Rightarrow> if c = 46 then takeWhile isDigit g @ 46 # fracDigits g
                 else takeWhile isDigit g)"

lemma digits_prefix:
  assumes "list_all isDigit ip" and "g = ip @ rest"
  shows "\<exists>t. takeWhile isDigit g = ip @ t"
proof -
  from assms(1) have "\<forall>x\<in>set ip. isDigit x" by (simp add: list_all_iff)
  then have "takeWhile isDigit (ip @ rest) = ip @ takeWhile isDigit rest"
    by (simp add: takeWhile_append2)
  then show ?thesis by (simp add: assms(2))
qed

lemma decimalPrefix_cases:
  assumes "decimalPrefix g d ip fp"
  shows "(d = ip \<and> fp = [] \<and> ip \<noteq> [] \<and> (\<exists>t. takeWhile isDigit g = ip @ t))
     \<or> (d = ip @ 46 # fp \<and> takeWhile isDigit g = ip
          \<and> (\<exists>r. dropWhile isDigit g = 46 # r) \<and> (\<exists>t. fracDigits g = fp @ t))"
proof -
  from assms obtain rest where g: "g = d @ rest" and
    ip: "list_all isDigit ip" and fp: "list_all isDigit fp" and ne: "ip @ fp \<noteq> []" and
    d: "(d = ip \<and> fp = []) \<or> d = ip @ 46 # fp"
    by (auto simp: decimalPrefix_def isDecimal_def)
  from d show ?thesis
  proof
    assume a: "d = ip \<and> fp = []"
    with ne have "ip \<noteq> []" by simp
    moreover from digits_prefix [OF ip] g a have "\<exists>t. takeWhile isDigit g = ip @ t" by simp
    ultimately show ?thesis using a by simp
  next
    assume b: "d = ip @ 46 # fp"
    then have g': "g = ip @ (46 # fp @ rest)" by (simp add: g)
    from run_then_rest [OF ip, of "46 # fp @ rest"] not_digit_dot
    have t: "takeWhile isDigit g = ip" "dropWhile isDigit g = 46 # fp @ rest"
      by (simp_all add: g')
    from digits_prefix [OF fp, of "fp @ rest" rest]
    have "\<exists>t. takeWhile isDigit (fp @ rest) = fp @ t" by simp
    then have "\<exists>t. fracDigits g = fp @ t" by (simp add: fracDigits_def t)
    with b t show ?thesis by simp
  qed
qed

lemma takeWhile_digits: "list_all isDigit (takeWhile isDigit g)"
  by (auto simp: list_all_iff dest: set_takeWhileD)

lemma fracDigits_digits: "list_all isDigit (fracDigits g)"
  by (auto simp: fracDigits_def list_all_iff split: list.splits dest: set_takeWhileD)

lemma fracDigits_no_dot:
  "(\<nexists>r. dropWhile isDigit g = 46 # r) \<Longrightarrow> fracDigits g = []"
  by (auto simp: fracDigits_def split: list.splits)

lemma readPrefix_decimal:
  assumes "takeWhile isDigit g @ fracDigits g \<noteq> []"
  shows "decimalPrefix g (readPrefix g) (takeWhile isDigit g) (fracDigits g)"
proof (cases "\<exists>r. dropWhile isDigit g = 46 # r")
  case True
  then obtain r where r: "dropWhile isDigit g = 46 # r" by blast
  then have rp: "readPrefix g = takeWhile isDigit g @ 46 # fracDigits g"
    by (simp add: readPrefix_def)
  have "r = takeWhile isDigit r @ dropWhile isDigit r" by simp
  then have "g = (takeWhile isDigit g @ 46 # takeWhile isDigit r) @ dropWhile isDigit r"
    by (metis append.assoc append_Cons r takeWhile_dropWhile_id)
  moreover have "fracDigits g = takeWhile isDigit r" by (simp add: fracDigits_def r)
  ultimately have "\<exists>rest. g = readPrefix g @ rest" by (metis rp)
  with assms show ?thesis
    by (simp add: decimalPrefix_def isDecimal_def rp takeWhile_digits fracDigits_digits)
next
  case False
  then have f: "fracDigits g = []" by (rule fracDigits_no_dot)
  from False have rp: "readPrefix g = takeWhile isDigit g"
    by (auto simp: readPrefix_def split: list.splits)
  have "g = takeWhile isDigit g @ dropWhile isDigit g" by simp
  then have "\<exists>rest. g = readPrefix g @ rest" unfolding rp by blast
  with assms f show ?thesis
    by (simp add: decimalPrefix_def isDecimal_def rp takeWhile_digits)
qed

lemma readPrefix_length:
  assumes "decimalPrefix g d ip fp"
  shows "length d \<le> length (readPrefix g) \<and> takeWhile isDigit g @ fracDigits g \<noteq> []
     \<and> (length d = length (readPrefix g) \<longrightarrow>
          decimalValue ip fp = decimalValue (takeWhile isDigit g) (fracDigits g))"
proof -
  from decimalPrefix_cases [OF assms] show ?thesis
  proof
    assume a: "d = ip \<and> fp = [] \<and> ip \<noteq> [] \<and> (\<exists>t. takeWhile isDigit g = ip @ t)"
    then obtain t where t: "takeWhile isDigit g = ip @ t" by blast
    show ?thesis
    proof (cases "\<exists>r. dropWhile isDigit g = 46 # r")
      case True
      then have "readPrefix g = takeWhile isDigit g @ 46 # fracDigits g"
        by (auto simp: readPrefix_def)
      with a t show ?thesis by simp
    next
      case False
      then have "fracDigits g = []" by (rule fracDigits_no_dot)
      moreover from False have "readPrefix g = takeWhile isDigit g"
        by (auto simp: readPrefix_def split: list.splits)
      ultimately show ?thesis using a t by auto
    qed
  next
    assume b: "d = ip @ 46 # fp \<and> takeWhile isDigit g = ip
          \<and> (\<exists>r. dropWhile isDigit g = 46 # r) \<and> (\<exists>t. fracDigits g = fp @ t)"
    then obtain t where t: "fracDigits g = fp @ t" by blast
    from b have rp: "readPrefix g = takeWhile isDigit g @ 46 # fracDigits g"
      by (auto simp: readPrefix_def)
    from assms have "ip @ fp \<noteq> []" by (simp add: decimalPrefix_def isDecimal_def)
    with b t rp show ?thesis by auto
  qed
qed

lemma parseFloat_longest:
  assumes "longestDecimalPrefix g d ip fp"
  shows "parseFloat g = toDouble (decimalValue ip fp)"
proof -
  from assms have dp: "decimalPrefix g d ip fp" and
    mx: "\<And>d' ip' fp'. decimalPrefix g d' ip' fp' \<Longrightarrow> length d' \<le> length d"
    by (auto simp: longestDecimalPrefix_def)
  from readPrefix_length [OF dp] have
    le: "length d \<le> length (readPrefix g)" and
    ne: "takeWhile isDigit g @ fracDigits g \<noteq> []" and
    eq: "length d = length (readPrefix g) \<longrightarrow>
          decimalValue ip fp = decimalValue (takeWhile isDigit g) (fracDigits g)"
    by blast+
  from mx [OF readPrefix_decimal [OF ne]] le have "length d = length (readPrefix g)" by simp
  with eq have "decimalValue ip fp = decimalValue (takeWhile isDigit g) (fracDigits g)" by blast
  with ne show ?thesis by (auto simp: parseFloat_def)
qed

lemma parseFloat_no_prefix:
  assumes "\<forall>d ip fp. \<not> decimalPrefix g d ip fp"
  shows "parseFloat g = NaN"
proof -
  have "takeWhile isDigit g @ fracDigits g = []"
    using readPrefix_decimal [of g] assms by blast
  then show ?thesis by (simp add: parseFloat_def)
qed

lemma longest_or_none:
  "(\<exists>d ip fp. longestDecimalPrefix g d ip fp) \<or> (\<forall>d ip fp. \<not> decimalPrefix g d ip fp)"
proof (cases "takeWhile isDigit g @ fracDigits g = []")
  case True
  then show ?thesis using readPrefix_length [of g] by blast
next
  case False
  from readPrefix_decimal [OF False] readPrefix_length [of g]
  have "longestDecimalPrefix g (readPrefix g) (takeWhile isDigit g) (fracDigits g)"
    unfolding longestDecimalPrefix_def by blast
  then show ?thesis by blast
qed

lemma readPrefix_longest:
  assumes "takeWhile isDigit g @ fracDigits g \<noteq> []"
  shows "longestDecimalPrefix g (readPrefix g) (takeWhile isDigit g) (fracDigits g)"
  using readPrefix_decimal [OF assms] readPrefix_length [of g]
  unfolding longestDecimalPrefix_def by blast

lemma no_decimalPrefix:
  assumes "takeWhile isDigit g @ fracDigits g = []"
  shows "\<not> decimalPrefix g d ip fp"
  using readPrefix_length [of g d ip fp] assms by blast

lemma applyDecl_fontSize:
  "fontSize (applyDecl result (lit ''font-size'') val vl)
     = (case parsePtPx val of
          None \<Rightarrow> fontSize result
        | Some n \<Rightarrow> if truthyNum n then Some n else fontSize result)"
  by (simp add: applyDecl_def lit_def split: option.splits)

text \<open>
  C6 (as amended). A value that is a run of digits and dots, not empty, followed by \<open>pt\<close> in
  any case of letters gives \<open>Math.round(parseFloat(run) * 1.333)\<close>, and followed by \<open>px\<close> it
  gives \<open>Math.round(parseFloat(run))\<close>, in the arithmetic of doubles. What \<open>parseFloat\<close> reads
  from a run is the value of the longest decimal number that starts the run, rounded to a
  double, and NaN when no decimal number starts the run; every run is in one of the two
  cases. For a run that is a decimal number that is its value. Every other value is
  unparsable. The property \<open>fontSize\<close> is set when the result is a number other than \<open>0\<close> and
  NaN, and left as it was otherwise. So \<open>12pt\<close> gives 16, \<open>16px\<close> gives 16 and \<open>12em\<close> is
  unparsable.
\<close>

theorem parsePtPx_sizes:
  "(g \<noteq> [] \<and> list_all isDigitOrDot g \<and> sameCI u (lit ''pt'') \<longrightarrow>
      parsePtPx (g @ u) = Some (Math_round (jsMul (parseFloat g) c1333)))
   \<and> (g \<noteq> [] \<and> list_all isDigitOrDot g \<and> sameCI u (lit ''px'') \<longrightarrow>
      parsePtPx (g @ u) = Some (Math_round (parseFloat g)))
   \<and> (list_all isDigit ip \<and> ip \<noteq> [] \<longrightarrow> parseFloat ip = toDouble (decimalValue ip []))
   \<and> (list_all isDigit ip \<and> list_all isDigit fp \<and> ip @ fp \<noteq> [] \<longrightarrow>
      parseFloat (ip @ 46 # fp) = toDouble (decimalValue ip fp))
   \<and> (list_all isDigitOrDot s \<and> longestDecimalPrefix s d dip dfp \<longrightarrow>
      parseFloat s = toDouble (decimalValue dip dfp))
   \<and> (list_all isDigitOrDot s \<and> (\<forall>d ip fp. \<not> decimalPrefix s d ip fp) \<longrightarrow>
      parseFloat s = NaN)
   \<and> ((\<exists>d ip fp. longestDecimalPrefix s d ip fp) \<or> (\<forall>d ip fp. \<not> decimalPrefix s d ip fp))
   \<and> (parsePtPx val = None \<longleftrightarrow>
      \<not> (\<exists>g u. val = g @ u \<and> g \<noteq> [] \<and> list_all isDigitOrDot g
            \<and> (sameCI u (lit ''pt'') \<or> sameCI u (lit ''px''))))
   \<and> fontSize (applyDecl result (lit ''font-size'') val vl)
       = (case parsePtPx val of
            None \<Rightarrow> fontSize result
          | Some n \<Rightarrow> if truthyNum n then Some n else fontSize result)
   \<and> parsePtPx (lit ''12pt'') = Some (Num 16)
   \<and> parsePtPx (lit ''16px'') = Some (Num 16)
   \<and> parsePtPx (lit ''12em'') = None"
proof (intro conjI impI)
  show "parsePtPx (g @ u) = Some (Math_round (jsMul (parseFloat g) c1333))"
    if "g \<noteq> [] \<and> list_all isDigitOrDot g \<and> sameCI u (lit ''pt'')"
    using that by (intro parsePtPx_pt) simp_all
  show "parsePtPx (g @ u) = Some (Math_round (parseFloat g))"
    if "g \<noteq> [] \<and> list_all isDigitOrDot g \<and> sameCI u (lit ''px'')"
    using that by (intro parsePtPx_px) simp_all
  show "parseFloat ip = toDouble (decimalValue ip [])" if "list_all isDigit ip \<and> ip \<noteq> []"
    using that by (intro parseFloat_integer) simp_all
  show "parseFloat (ip @ 46 # fp) = toDouble (decimalValue ip fp)"
    if "list_all isDigit ip \<and> list_all isDigit fp \<and> ip @ fp \<noteq> []"
    using that by (intro parseFloat_decimal) simp_all
  show "parseFloat s = toDouble (decimalValue dip dfp)"
    if "list_all isDigitOrDot s \<and> longestDecimalPrefix s d dip dfp"
    using that by (intro parseFloat_longest [of s d]) simp
  show "parseFloat s = NaN"
    if "list_all isDigitOrDot s \<and> (\<forall>d ip fp. \<not> decimalPrefix s d ip fp)"
    using that by (intro parseFloat_no_prefix) simp
  show "(\<exists>d ip fp. longestDecimalPrefix s d ip fp) \<or> (\<forall>d ip fp. \<not> decimalPrefix s d ip fp)"
    by (rule longest_or_none)
  show "parsePtPx val = None \<longleftrightarrow>
      \<not> (\<exists>g u. val = g @ u \<and> g \<noteq> [] \<and> list_all isDigitOrDot g
            \<and> (sameCI u (lit ''pt'') \<or> sameCI u (lit ''px'')))"
    by (rule parsePtPx_None)
  show "fontSize (applyDecl result (lit ''font-size'') val vl)
       = (case parsePtPx val of
            None \<Rightarrow> fontSize result
          | Some n \<Rightarrow> if truthyNum n then Some n else fontSize result)"
    by (rule applyDecl_fontSize)
  show "parsePtPx (lit ''12pt'') = Some (Num 16)" by (simp add: ev)
  show "parsePtPx (lit ''16px'') = Some (Num 16)" by (simp add: ev)
  show "parsePtPx (lit ''12em'') = None" by (simp add: ev)
qed

theorem parsePtPx_sizes_witness:
  "parsePtPx (lit ''12'' @ lit ''pt'') = Some (Num 16)
   \<and> parsePtPx (lit ''2.5'' @ lit ''PX'') = Some (Num 3)
   \<and> parseFloat (lit ''12'' @ 46 # lit ''5'') = Num (25 / 2)
   \<and> longestDecimalPrefix (lit ''1.2.3'') (lit ''1.2'') (lit ''1'') (lit ''2'')
   \<and> parseFloat (lit ''1.2.3'') = Num (5404319552844595 / 4503599627370496)
   \<and> parseFloat (lit ''.'') = NaN
   \<and> parseFloat (lit ''..5'') = NaN
   \<and> fontSize (applyDecl emptyStyle (lit ''font-size'') (lit ''12pt'') (lit ''12pt''))
       = Some (Num 16)
   \<and> fontSize (applyDecl emptyStyle (lit ''font-size'') (lit ''0pt'') (lit ''0pt'')) = None"
proof -
  note t = parsePtPx_sizes
  have h1: "lit ''12'' \<noteq> [] \<and> list_all isDigitOrDot (lit ''12'') \<and> sameCI (lit ''pt'') (lit ''pt'')"
    by (simp add: sameCI_def ev)
  have h2: "lit ''2.5'' \<noteq> [] \<and> list_all isDigitOrDot (lit ''2.5'')
      \<and> sameCI (lit ''PX'') (lit ''px'')"
    by (simp add: sameCI_def ev)
  have h3: "list_all isDigit (lit ''12'') \<and> list_all isDigit (lit ''5'')
      \<and> lit ''12'' @ lit ''5'' \<noteq> []"
    by (simp add: ev)
  have r4: "takeWhile isDigit (lit ''1.2.3'') = lit ''1'' \<and> fracDigits (lit ''1.2.3'') = lit ''2''
      \<and> readPrefix (lit ''1.2.3'') = lit ''1.2''"
    by (simp add: readPrefix_def ev)
  have "takeWhile isDigit (lit ''1.2.3'') @ fracDigits (lit ''1.2.3'') \<noteq> []"
    by (simp add: r4) (simp add: lit_def)
  from readPrefix_longest [OF this]
  have l4: "longestDecimalPrefix (lit ''1.2.3'') (lit ''1.2'') (lit ''1'') (lit ''2'')"
    by (simp add: r4)
  have d4: "list_all isDigitOrDot (lit ''1.2.3'')" by (simp add: ev)
  have h5: "list_all isDigitOrDot (lit ''.'')
      \<and> (\<forall>d ip fp. \<not> decimalPrefix (lit ''.'')  d ip fp)"
    by (intro conjI allI no_decimalPrefix) (simp_all add: ev)
  have h6: "list_all isDigitOrDot (lit ''..5'')
      \<and> (\<forall>d ip fp. \<not> decimalPrefix (lit ''..5'') d ip fp)"
    by (intro conjI allI no_decimalPrefix) (simp_all add: ev)
  have v1: "Math_round (jsMul (parseFloat (lit ''12'')) c1333) = Num 16" by (simp add: ev)
  have v2: "Math_round (parseFloat (lit ''2.5'')) = Num 3" by (simp add: ev)
  have v3: "toDouble (decimalValue (lit ''12'') (lit ''5'')) = Num (25 / 2)" by (simp add: ev)
  have v4: "toDouble (decimalValue (lit ''1'') (lit ''2''))
      = Num (5404319552844595 / 4503599627370496)"
    by (simp add: ev)
  have p1: "parsePtPx (lit ''12pt'') = Some (Num 16)" by (simp add: ev)
  have p2: "parsePtPx (lit ''0pt'') = Some (Num 0)" by (simp add: ev)
  from t [where g = "lit ''12''" and u = "lit ''pt''"] h1 v1
  have "parsePtPx (lit ''12'' @ lit ''pt'') = Some (Num 16)" by simp
  moreover from t [where g = "lit ''2.5''" and u = "lit ''PX''"] h2 v2
  have "parsePtPx (lit ''2.5'' @ lit ''PX'') = Some (Num 3)" by simp
  moreover from t [where ip = "lit ''12''" and fp = "lit ''5''"] h3 v3
  have "parseFloat (lit ''12'' @ 46 # lit ''5'') = Num (25 / 2)" by simp
  moreover from t [where s = "lit ''1.2.3''" and d = "lit ''1.2''" and dip = "lit ''1''"
      and dfp = "lit ''2''"] d4 l4 v4
  have "parseFloat (lit ''1.2.3'') = Num (5404319552844595 / 4503599627370496)" by simp
  moreover from t [where s = "lit ''.''"] h5 have "parseFloat (lit ''.'') = NaN" by blast
  moreover from t [where s = "lit ''..5''"] h6 have "parseFloat (lit ''..5'') = NaN" by blast
  moreover from t [where val = "lit ''12pt''" and result = emptyStyle and vl = "lit ''12pt''"] p1
  have "fontSize (applyDecl emptyStyle (lit ''font-size'') (lit ''12pt'') (lit ''12pt''))
       = Some (Num 16)" by simp
  moreover from t [where val = "lit ''0pt''" and result = emptyStyle and vl = "lit ''0pt''"] p2
  have "fontSize (applyDecl emptyStyle (lit ''font-size'') (lit ''0pt'') (lit ''0pt'')) = None"
    by (simp add: emptyStyle_def)
  ultimately show ?thesis using l4 by blast
qed

text \<open>
  C6 as stated fails: \<open>1.2.3\<close> is not a decimal number, and the value \<open>1.2.3pt\<close> is not
  unparsable. It is read as \<open>1.2pt\<close>, and the property \<open>fontSize\<close> is set to 2.
\<close>

theorem parsePtPx_reads_a_run_of_digits_and_dots:
  "parsePtPx (lit ''1.2.3pt'') = Some (Num 2)
   \<and> fontSize (parseCssClass (lit ''font-size:1.2.3pt'')) = Some (Num 2)"
  by (simp add: ev)

section \<open>Colours\<close>




















































end
